theory Spec2Isabelle
  imports Main "HOL-Library.AList"
begin

section \<open>Module representation\<close>

text \<open>
  The hotpatch code of \<^verbatim>\<open>src/example.cpp\<close> works on LLVM modules. A module is a
  table of named symbols together with its target metadata. Every symbol is either a
  function definition or a global variable; only symbols with external linkage are
  modelled (the spec's data model: all symbols are exported). Names are unique inside
  one module; the predicate \<open>uniqueNames\<close> states this.
\<close>

datatype SymbolKind = FunctionDefinition | GlobalVariable

record Symbol =
  kind :: SymbolKind
  body :: string

record Module =
  symbols :: "(string \<times> Symbol) list"
  dataLayout :: string
  targetTriple :: string

definition symbolNames :: "Module \<Rightarrow> string list" where
  "symbolNames m = map fst (symbols m)"

definition uniqueNames :: "Module \<Rightarrow> bool" where
  "uniqueNames m = distinct (symbolNames m)"

text \<open>\<^verbatim>\<open>Module::getNamedValue\<close>: the symbol table lookup.\<close>

definition getNamedValue :: "Module \<Rightarrow> string \<Rightarrow> Symbol option" where
  "getNamedValue m n = map_of (symbols m) n"

text \<open>
  \<^verbatim>\<open>Module::getGlobalVariable(Name)\<close>: the named value, when it is a global variable;
  a function of that name gives the null pointer.
\<close>

definition getGlobalVariable :: "Module \<Rightarrow> string \<Rightarrow> Symbol option" where
  "getGlobalVariable m n =
     (case getNamedValue m n of
        None \<Rightarrow> None
      | Some s \<Rightarrow> if kind s = GlobalVariable then Some s else None)"

text \<open>\<^verbatim>\<open>Module::globals()\<close>: the global variables of the module, in module order.\<close>

definition globals :: "Module \<Rightarrow> (string \<times> Symbol) list" where
  "globals m = filter (\<lambda>(n, s). kind s = GlobalVariable) (symbols m)"

text \<open>
  \<^verbatim>\<open>Value::setName\<close> on the symbol found under \<open>old\<close>. The symbol keeps its place and
  its body. When the requested name is already taken, LLVM's symbol table picks another,
  unused name; which one depends on a counter inside the table, so the choice is a
  parameter \<open>uniq\<close> (given the names in the table and the requested name).
\<close>

fun renameEntry :: "string \<Rightarrow> string \<Rightarrow> (string \<times> Symbol) list \<Rightarrow> (string \<times> Symbol) list" where
  "renameEntry old new [] = []"
| "renameEntry old new ((n, s) # rest) =
     (if n = old then (new, s) # rest else (n, s) # renameEntry old new rest)"

definition setName :: "(string list \<Rightarrow> string \<Rightarrow> string) \<Rightarrow> string \<Rightarrow> string \<Rightarrow> Module \<Rightarrow> Module" where
  "setName uniq old new m =
     (if new = old then m
      else let chosen = (if new \<in> set (symbolNames m) then uniq (symbolNames m) new else new)
           in m\<lparr>symbols := renameEntry old chosen (symbols m)\<rparr>)"

section \<open>The environment of a hotpatch call\<close>

text \<open>
  What the code asks of the file system and of LLVM:
  \<^item> \<open>fs_present\<close>: whether a file system object is at the path;
  \<^item> \<open>fs_status_error\<close>: whether the status query on the path fails with an error
    other than "not found" (a name that is too long, a directory that may not be
    searched, ...);
  \<^item> \<open>parseIRFile\<close>: \<^verbatim>\<open>llvm::parseIRFile\<close>, \<open>Inl\<close> the diagnostic message when no
    module comes back, \<open>Inr\<close> the parsed patch module;
  \<^item> \<open>makeUniqueName\<close>: the name the symbol table picks on a name clash (see \<open>setName\<close>);
  \<^item> \<open>linkFails\<close>: whether the merge of the patch module into the base module cannot
    complete.
\<close>

record Env =
  fs_present :: "string \<Rightarrow> bool"
  fs_status_error :: "string \<Rightarrow> bool"
  parseIRFile :: "string \<Rightarrow> string + Module"
  makeUniqueName :: "string list \<Rightarrow> string \<Rightarrow> string"
  linkFails :: "Module \<Rightarrow> Module \<Rightarrow> bool"

text \<open>
  \<^verbatim>\<open>std::filesystem::exists(path)\<close>: the answer of the status query, and \<open>None\<close> when
  the query fails with a status error: then \<^verbatim>\<open>exists\<close> throws
  \<^verbatim>\<open>std::filesystem::filesystem_error\<close>.
\<close>

definition fs_exists :: "Env \<Rightarrow> string \<Rightarrow> bool option" where
  "fs_exists env path = (if fs_status_error env path then None else Some (fs_present env path))"

text \<open>
  The observable effects of a call, in the order they happen: the library calls that
  read the file system or change a module, and the lines written to \<^verbatim>\<open>llvm::outs()\<close>
  and \<^verbatim>\<open>llvm::errs()\<close>.
\<close>

datatype Event =
    FsExists string
  | ParseIRFile string
  | SetDataLayout string
  | SetTargetTriple string
  | SetName string string
  | LinkModules
  | Outs string
  | Errs string

section \<open>The steps of \<^verbatim>\<open>hotpatchRemill\<close>\<close>

text \<open>\<^verbatim>\<open>globalName.rfind("ISEL_", 0) == 0\<close>: the name starts with the prefix.\<close>

definition startsWith :: "string \<Rightarrow> string \<Rightarrow> bool" where
  "startsWith p s = (take (length p) s = p)"

definition iselPrefix :: string where
  "iselPrefix = ''ISEL_''"

definition originalSuffix :: string where
  "originalSuffix = ''_original''"

text \<open>
  Lines 57-58: the patch module takes the data layout and the target triple of the
  base module. The state is the pair (base module, patch module).
\<close>

definition conformTarget :: "Module \<times> Module \<Rightarrow> Module \<times> Module" where
  "conformTarget st =
     (let (module, patchModule) = st
      in (module, patchModule\<lparr>dataLayout := dataLayout module,
                               targetTriple := targetTriple module\<rparr>))"

text \<open>
  Lines 63-72: the body of the loop, for one global variable of the patch module.
  The state is the base module and the events so far.
\<close>

definition resolveGlobal :: "Env \<Rightarrow> string \<Rightarrow> Module \<times> Event list \<Rightarrow> Module \<times> Event list" where
  "resolveGlobal env globalName st =
     (let (module, tr) = st
      in if startsWith iselPrefix globalName then
           (case getGlobalVariable module globalName of
              None \<Rightarrow> (module, tr)
            | Some existingGlobal \<Rightarrow>
                (setName (makeUniqueName env) globalName (globalName @ originalSuffix) module,
                 tr @ [SetName globalName (globalName @ originalSuffix),
                       Outs (''Hotpatching: '' @ globalName @ ''\<newline>'')]))
         else (module, tr))"

text \<open>Lines 62-73: the loop over \<^verbatim>\<open>patchModule->globals()\<close>.\<close>

primrec resolveLoop :: "Env \<Rightarrow> string list \<Rightarrow> Module \<times> Event list \<Rightarrow> Module \<times> Event list" where
  "resolveLoop env [] st = st"
| "resolveLoop env (globalName # rest) st = resolveLoop env rest (resolveGlobal env globalName st)"

definition resolveCollisions :: "Env \<Rightarrow> Module \<Rightarrow> Module \<times> Event list \<Rightarrow> Module \<times> Event list" where
  "resolveCollisions env patchModule st = resolveLoop env (map fst (globals patchModule)) st"

text \<open>
  Modelled from the spec: \<^verbatim>\<open>llvm::Linker::linkModules\<close> with \<^verbatim>\<open>OverrideFromSrc\<close> is LLVM
  library code, not part of the repository. Spec 4.4: all symbols of the patch module
  are merged into the base module; for a name present in both, the patch module's
  definition replaces the base module's; on failure the base module is left as the
  rename step produced it. The result is LLVM's error flag (\<open>True\<close>: failed) and the
  base module.
\<close>

definition linkModules :: "Env \<Rightarrow> Module \<Rightarrow> Module \<Rightarrow> bool \<times> Module" where
  "linkModules env dst src =
     (if linkFails env dst src then (True, dst)
      else (False, dst\<lparr>symbols := AList.merge (symbols dst) (symbols src)\<rparr>))"

text \<open>
  How a call ends: it returns its flag, or an exception leaves it. Nothing in
  \<^verbatim>\<open>example.cpp\<close> catches an exception.
\<close>

datatype Outcome = Returned bool | Threw

text \<open>
  \<^verbatim>\<open>hotpatchRemill(module, hotpatchPath)\<close>, lines 40-84. The result is how the call
  ended, the base module after the call and the events of the call.
\<close>

definition hotpatchRemill :: "Env \<Rightarrow> Module \<Rightarrow> string \<Rightarrow> Outcome \<times> Module \<times> Event list" where
  "hotpatchRemill env module hotpatchPath =
     (case fs_exists env hotpatchPath of
        None \<Rightarrow> (Threw, module, [FsExists hotpatchPath])
      | Some found \<Rightarrow>
          if \<not> found then
            (Returned False, module,
             [FsExists hotpatchPath,
              Errs (''Hotpatch file not found: '' @ hotpatchPath @ ''\<newline>'')])
          else
            (case parseIRFile env hotpatchPath of
               Inl message \<Rightarrow>
                 (Returned False, module,
                  [FsExists hotpatchPath, ParseIRFile hotpatchPath,
                   Errs (''Failed to parse hotpatch module: '' @ message @ ''\<newline>'')])
             | Inr parsed \<Rightarrow>
                 (let (module1, patchModule) = conformTarget (module, parsed);
                      tr1 = [FsExists hotpatchPath, ParseIRFile hotpatchPath,
                             SetDataLayout (dataLayout module), SetTargetTriple (targetTriple module)];
                      (module2, tr2) = resolveCollisions env patchModule (module1, tr1);
                      (failed, module3) = linkModules env module2 patchModule
                  in if failed then
                       (Returned False, module3,
                        tr2 @ [LinkModules, Errs ''Failed to link hotpatch module\<newline>''])
                     else (Returned True, module3, tr2 @ [LinkModules]))))"

section \<open>The executable's own path (\<^verbatim>\<open>exepath.hpp\<close>)\<close>

text \<open>
  \<^verbatim>\<open>executablePath\<close> and \<^verbatim>\<open>executableDir\<close> each keep their result in a function-local
  static, initialised by the first call that gets through. The statics are the state;
  \<open>None\<close> is a static not yet initialised.
\<close>

record Statics =
  executablePath_path :: "string option"
  executableDir_path :: "string option"

definition initialStatics :: Statics where
  "initialStatics = \<lparr>executablePath_path = None, executableDir_path = None\<rparr>"

text \<open>
  \<^verbatim>\<open>executablePath()\<close>. The argument \<open>now\<close> is what
  \<^verbatim>\<open>std::filesystem::weakly_canonical(executable_path_impl())\<close> gives at the moment of the
  call, \<open>None\<close> when it throws (or when \<^verbatim>\<open>realpath\<close> fails and no path can be built):
  then the call returns nothing and the static stays uninitialised.
\<close>

definition executablePath :: "string option \<Rightarrow> Statics \<Rightarrow> string option \<times> Statics" where
  "executablePath now st =
     (case executablePath_path st of
        Some path \<Rightarrow> (Some path, st)
      | None \<Rightarrow>
          (case now of
             None \<Rightarrow> (None, st)
           | Some path \<Rightarrow> (Some path, st\<lparr>executablePath_path := Some path\<rparr>)))"

text \<open>
  \<^verbatim>\<open>executableDir()\<close>; \<open>parent\<close> is \<^verbatim>\<open>std::filesystem::path::parent_path\<close>.
\<close>

definition executableDir :: "(string \<Rightarrow> string) \<Rightarrow> string option \<Rightarrow> Statics \<Rightarrow> string option \<times> Statics" where
  "executableDir parent now st =
     (case executableDir_path st of
        Some path \<Rightarrow> (Some path, st)
      | None \<Rightarrow>
          (case executablePath now st of
             (None, st1) \<Rightarrow> (None, st1)
           | (Some exe, st1) \<Rightarrow> (Some (parent exe), st1\<lparr>executableDir_path := Some (parent exe)\<rparr>)))"

text \<open>
  A process run, as far as these two functions go: a sequence of calls, each with what
  the operating system would answer at that moment. The result lists what each call
  returned.
\<close>

datatype PathCall = ExecutablePath | ExecutableDir

fun runCalls :: "(string \<Rightarrow> string) \<Rightarrow> (PathCall \<times> string option) list \<Rightarrow> Statics
    \<Rightarrow> (PathCall \<times> string option) list" where
  "runCalls parent [] st = []"
| "runCalls parent ((ExecutablePath, now) # rest) st =
     (ExecutablePath, fst (executablePath now st))
       # runCalls parent rest (snd (executablePath now st))"
| "runCalls parent ((ExecutableDir, now) # rest) st =
     (ExecutableDir, fst (executableDir parent now st))
       # runCalls parent rest (snd (executableDir parent now st))"

section \<open>The hotpatch part of \<^verbatim>\<open>main\<close>\<close>

text \<open>
  The two path operations of \<^verbatim>\<open>std::filesystem::path\<close> that \<^verbatim>\<open>main\<close> uses:
  \<^verbatim>\<open>parent_path\<close> and \<^verbatim>\<open>operator/\<close>.
\<close>

record PathLib =
  parent_path :: "string \<Rightarrow> string"
  pathAppend :: "string \<Rightarrow> string \<Rightarrow> string"

text \<open>Line 106: the default location of the patch, below the executable's directory.\<close>

definition defaultHotpatchPath :: "PathLib \<Rightarrow> string \<Rightarrow> string" where
  "defaultHotpatchPath lib dir = pathAppend lib dir ''helpers/x86_64/RemillHotpatch.bc''"



text \<open>
  The step of the call an event belongs to: 1 loading, 2 conformance, 3 collision
  resolution, 4 linking, 5 the failure report that ends a failed call.
\<close>

fun stepOf :: "Event \<Rightarrow> nat" where
  "stepOf (FsExists p) = 1"
| "stepOf (ParseIRFile p) = 1"
| "stepOf (SetDataLayout d) = 2"
| "stepOf (SetTargetTriple t) = 2"
| "stepOf (SetName old new) = 3"
| "stepOf (Outs line) = 3"
| "stepOf LinkModules = 4"
| "stepOf (Errs line) = 5"

text \<open>
  No rename of the loop meets a name clash in module \<open>m\<close>: for every selector name
  \<open>K\<close> of the list, the name \<open>K @ originalSuffix\<close> is unused in \<open>m\<close>.
\<close>

definition originalNamesFree :: "string list \<Rightarrow> Module \<Rightarrow> bool" where
  "originalNamesFree gs m =
     (\<forall>K \<in> set gs. startsWith iselPrefix K \<longrightarrow> K @ originalSuffix \<notin> set (symbolNames m))"

section \<open>Example modules and environments\<close>

text \<open>
  Scenario A of the spec: the base module binds the selector \<^verbatim>\<open>ISEL_CPUID\<close> to the old
  semantic function, the patch module (no target metadata set) binds it to a new one.
  The environment knows one file, \<^verbatim>\<open>patch.bc\<close>, and its status query fails on a path
  longer than 255 characters; \<open>parsed\<close> is what parsing the file gives and \<open>fails\<close> whether
  the merge fails.
\<close>

definition exampleEnv :: "string + Module \<Rightarrow> bool \<Rightarrow> Env" where
  "exampleEnv parsed fails =
     \<lparr>fs_present = (\<lambda>p. p = ''patch.bc''),
      fs_status_error = (\<lambda>p. 255 < length p),
      parseIRFile = (\<lambda>p. parsed),
      makeUniqueName = (\<lambda>names n. n @ ''.1''),
      linkFails = (\<lambda>dst src. fails)\<rparr>"

definition longPath :: string where
  "longPath = replicate 300 (CHR ''a'')"

definition cpuidBase :: Module where
  "cpuidBase =
     \<lparr>symbols = [(''ISEL_CPUID'', \<lparr>kind = GlobalVariable, body = ''@F_old''\<rparr>),
                 (''helper'', \<lparr>kind = FunctionDefinition, body = ''ret 0''\<rparr>)],
      dataLayout = ''e-m:e-i64:64'', targetTriple = ''x86_64-pc-linux-gnu''\<rparr>"

definition cpuidPatch :: Module where
  "cpuidPatch =
     \<lparr>symbols = [(''ISEL_CPUID'', \<lparr>kind = GlobalVariable, body = ''@F_new''\<rparr>),
                 (''helper'', \<lparr>kind = FunctionDefinition, body = ''ret 1''\<rparr>)],
      dataLayout = '''', targetTriple = ''''\<rparr>"

definition twoSelectorPatch :: Module where
  "twoSelectorPatch =
     \<lparr>symbols = [(''ISEL_CPUID'', \<lparr>kind = GlobalVariable, body = ''@F_new''\<rparr>),
                 (''ISEL_CPUID_original'', \<lparr>kind = GlobalVariable, body = ''@F_other''\<rparr>)],
      dataLayout = '''', targetTriple = ''''\<rparr>"

definition functionPatch :: Module where
  "functionPatch =
     \<lparr>symbols = [(''ISEL_CPUID'', \<lparr>kind = FunctionDefinition, body = ''ret 2''\<rparr>)],
      dataLayout = '''', targetTriple = ''''\<rparr>"

definition newSelectorPatch :: Module where
  "newSelectorPatch =
     \<lparr>symbols = [(''ISEL_RDTSC'', \<lparr>kind = GlobalVariable, body = ''@F_rdtsc''\<rparr>)],
      dataLayout = '''', targetTriple = ''''\<rparr>"

definition exampleLib :: PathLib where
  "exampleLib = \<lparr>parent_path = (\<lambda>p. ''/opt/example''), pathAppend = (\<lambda>a b. a @ ''/'' @ b)\<rparr>"

definition exampleCalls :: "(PathCall \<times> string option) list" where
  "exampleCalls =
     [(ExecutableDir, Some ''/opt/example/example''),
      (ExecutablePath, Some ''/tmp/moved/example''),
      (ExecutableDir, None),
      (ExecutablePath, None)]"

section \<open>Unfolding the definitions on concrete inputs\<close>

lemmas model_defs = hotpatchRemill_def fs_exists_def conformTarget_def resolveCollisions_def globals_def
  resolveGlobal_def startsWith_def iselPrefix_def originalSuffix_def getGlobalVariable_def
  getNamedValue_def setName_def symbolNames_def linkModules_def uniqueNames_def
  AList.merge_def

lemmas example_defs = exampleEnv_def cpuidBase_def cpuidPatch_def twoSelectorPatch_def functionPatch_def

lemma longPath_length: "length longPath = 300"
  by (simp add: longPath_def)

lemma longPath_neq: "longPath \<noteq> ''patch.bc''"
proof
  assume "longPath = ''patch.bc''"
  then have "length longPath = length ''patch.bc''" by simp
  then show False by (simp add: longPath_length)
qed

section \<open>The rename loop: events\<close>

lemma resolveGlobal_cases:
  "resolveGlobal env g (m, tr) = (m, tr) \<or>
   (startsWith iselPrefix g \<and> (\<exists>e. getGlobalVariable m g = Some e) \<and>
    resolveGlobal env g (m, tr) =
      (setName (makeUniqueName env) g (g @ originalSuffix) m,
       tr @ [SetName g (g @ originalSuffix), Outs (''Hotpatching: '' @ g @ ''\<newline>'')]))"
  by (auto simp: resolveGlobal_def split: option.splits)

lemma resolveGlobal_trace:
  "snd (resolveGlobal env g (m, tr)) = tr @ snd (resolveGlobal env g (m, []))"
  by (simp add: resolveGlobal_def split: option.splits)

lemma resolveGlobal_module:
  "fst (resolveGlobal env g (m, tr)) = fst (resolveGlobal env g (m, []))"
  by (simp add: resolveGlobal_def split: option.splits)

lemma resolveLoop_trace:
  "snd (resolveLoop env gs (m, tr)) = tr @ snd (resolveLoop env gs (m, []))"
proof (induction gs arbitrary: m tr)
  case Nil
  show ?case by simp
next
  case (Cons g gs)
  obtain m1 t1 where s1: "resolveGlobal env g (m, []) = (m1, t1)" by (cases "resolveGlobal env g (m, [])")
  have s2: "resolveGlobal env g (m, tr) = (m1, tr @ t1)"
    using resolveGlobal_trace [of env g m tr] resolveGlobal_module [of env g m tr] s1
    by (cases "resolveGlobal env g (m, tr)") simp
  show ?case
    using Cons.IH [of m1 "tr @ t1"] Cons.IH [of m1 t1] by (simp add: s1 s2)
qed

lemma resolveLoop_module:
  "fst (resolveLoop env gs (m, tr)) = fst (resolveLoop env gs (m, []))"
proof (induction gs arbitrary: m tr)
  case Nil
  show ?case by simp
next
  case (Cons g gs)
  obtain m1 t1 where s1: "resolveGlobal env g (m, []) = (m1, t1)" by (cases "resolveGlobal env g (m, [])")
  have s2: "resolveGlobal env g (m, tr) = (m1, tr @ t1)"
    using resolveGlobal_trace [of env g m tr] resolveGlobal_module [of env g m tr] s1
    by (cases "resolveGlobal env g (m, tr)") simp
  show ?case
    using Cons.IH [of m1 "tr @ t1"] Cons.IH [of m1 t1] by (simp add: s1 s2)
qed

lemma resolveGlobal_steps:
  "e \<in> set (snd (resolveGlobal env g (m, []))) \<Longrightarrow> stepOf e = 3"
  by (auto simp: resolveGlobal_def split: option.splits if_splits)

lemma resolveLoop_steps:
  "e \<in> set (snd (resolveLoop env gs (m, []))) \<Longrightarrow> stepOf e = 3"
proof (induction gs arbitrary: m)
  case Nil
  then show ?case by simp
next
  case (Cons g gs)
  obtain m1 t1 where s1: "resolveGlobal env g (m, []) = (m1, t1)" by (cases "resolveGlobal env g (m, [])")
  from Cons.prems have "e \<in> set (snd (resolveLoop env gs (m1, t1)))" by (simp add: s1)
  then have "e \<in> set t1 \<or> e \<in> set (snd (resolveLoop env gs (m1, [])))"
    using resolveLoop_trace [of env gs m1 t1] by auto
  then show ?case
    using Cons.IH [of m1] resolveGlobal_steps [of e env g m] s1 by auto
qed

section \<open>Renaming one entry of the symbol table\<close>

lemma map_of_renameEntry_other:
  "k \<noteq> old \<Longrightarrow> k \<noteq> new \<Longrightarrow> map_of (renameEntry old new xs) k = map_of xs k"
  by (induction xs) auto

lemma map_of_renameEntry_choice:
  "k \<noteq> old \<Longrightarrow> map_of (renameEntry old new xs) k = map_of xs k
     \<or> map_of (renameEntry old new xs) k = map_of xs old"
  by (induction xs) auto

lemma names_renameEntry_mem:
  "(k, v) \<in> set (renameEntry old new xs) \<Longrightarrow> k = new \<or> k \<in> set (map fst xs)"
  by (induction xs) (force split: if_splits)+

lemma names_renameEntry:
  "set (map fst (renameEntry old new xs)) \<subseteq> insert new (set (map fst xs))"
  using names_renameEntry_mem by fastforce

lemma map_of_renameEntry_new:
  "distinct (map fst xs) \<Longrightarrow> new \<notin> set (map fst xs) \<Longrightarrow> map_of xs old = Some s
     \<Longrightarrow> map_of (renameEntry old new xs) new = Some s"
  by (induction xs) (auto simp: map_of_eq_None_iff [symmetric] split: if_splits)

lemma map_of_renameEntry_old:
  "distinct (map fst xs) \<Longrightarrow> new \<noteq> old \<Longrightarrow> map_of (renameEntry old new xs) old = None"
proof (induction xs)
  case Nil
  show ?case by simp
next
  case (Cons x xs)
  obtain n s where x: "x = (n, s)" by (cases x)
  show ?case
  proof (cases "n = old")
    case True
    then have "old \<notin> set (map fst xs)" using Cons.prems x by simp
    then have "map_of xs old = None" by (simp add: map_of_eq_None_iff)
    then show ?thesis using True x Cons.prems by simp
  next
    case False
    then show ?thesis using Cons x by simp
  qed
qed

lemma distinct_renameEntry:
  "distinct (map fst xs) \<Longrightarrow> new \<notin> set (map fst xs) \<Longrightarrow> distinct (map fst (renameEntry old new xs))"
proof (induction xs)
  case Nil
  show ?case by simp
next
  case (Cons x xs)
  obtain n s where x: "x = (n, s)" by (cases x)
  show ?case
  proof (cases "n = old")
    case True
    then show ?thesis using Cons.prems x by simp
  next
    case False
    have "n \<notin> set (map fst (renameEntry old new xs))"
      using names_renameEntry [of old new xs] Cons.prems x by auto
    then show ?thesis using Cons x False by simp
  qed
qed

text \<open>
  A global variable found under \<open>N\<close> is still found there after the loop body ran for
  another name.
\<close>

lemma resolveGlobal_keeps_global:
  assumes "g \<noteq> N" and "getGlobalVariable m N = Some b"
  shows "\<exists>b'. getGlobalVariable (fst (resolveGlobal env g (m, tr))) N = Some b'"
proof -
  from resolveGlobal_cases [of env g m tr]
  show ?thesis
  proof
    assume "resolveGlobal env g (m, tr) = (m, tr)"
    then show ?thesis using assms by simp
  next
    assume a: "startsWith iselPrefix g \<and> (\<exists>e. getGlobalVariable m g = Some e) \<and>
      resolveGlobal env g (m, tr) =
        (setName (makeUniqueName env) g (g @ originalSuffix) m,
         tr @ [SetName g (g @ originalSuffix), Outs (''Hotpatching: '' @ g @ ''\<newline>'')])"
    then obtain e where e: "getGlobalVariable m g = Some e" by blast
    define chosen where "chosen = (if g @ originalSuffix \<in> set (symbolNames m)
       then makeUniqueName env (symbolNames m) (g @ originalSuffix) else g @ originalSuffix)"
    have ne: "g @ originalSuffix \<noteq> g" by (simp add: originalSuffix_def)
    have sym: "symbols (fst (resolveGlobal env g (m, tr))) = renameEntry g chosen (symbols m)"
      using a ne by (simp add: setName_def chosen_def Let_def)
    have "map_of (renameEntry g chosen (symbols m)) N = map_of (symbols m) N
        \<or> map_of (renameEntry g chosen (symbols m)) N = map_of (symbols m) g"
      using map_of_renameEntry_choice [of N g chosen "symbols m"] assms(1) by blast
    then show ?thesis
      using e assms(2) sym
      by (auto simp: getGlobalVariable_def getNamedValue_def split: option.splits if_splits)
  qed
qed

lemma resolveLoop_keeps_events:
  "e \<in> set tr \<Longrightarrow> e \<in> set (snd (resolveLoop env gs (m, tr)))"
  using resolveLoop_trace [of env gs m tr] by simp

lemma resolveLoop_visits:
  assumes "N \<in> set gs" and "startsWith iselPrefix N" and "getGlobalVariable m N = Some b"
  shows "SetName N (N @ originalSuffix) \<in> set (snd (resolveLoop env gs (m, tr)))
       \<and> Outs (''Hotpatching: '' @ N @ ''\<newline>'') \<in> set (snd (resolveLoop env gs (m, tr)))"
  using assms
proof (induction gs arbitrary: m tr b)
  case Nil
  then show ?case by simp
next
  case (Cons g gs)
  obtain m1 t1 where s1: "resolveGlobal env g (m, tr) = (m1, t1)" by (cases "resolveGlobal env g (m, tr)")
  show ?case
  proof (cases "g = N")
    case True
    have "t1 = tr @ [SetName N (N @ originalSuffix), Outs (''Hotpatching: '' @ N @ ''\<newline>'')]"
      using s1 True Cons.prems by (simp add: resolveGlobal_def)
    then have "SetName N (N @ originalSuffix) \<in> set t1 \<and> Outs (''Hotpatching: '' @ N @ ''\<newline>'') \<in> set t1"
      by simp
    then show ?thesis
      using resolveLoop_keeps_events [of _ t1 env gs m1] by (simp add: s1)
  next
    case False
    then have "N \<in> set gs" using Cons.prems by simp
    moreover obtain b' where "getGlobalVariable m1 N = Some b'"
      using resolveGlobal_keeps_global [OF False Cons.prems(3), of env tr] s1 by auto
    ultimately show ?thesis
      using Cons.IH [of m1 b' t1] Cons.prems(2) by (simp add: s1)
  qed
qed

lemma resolveGlobal_setName_sound:
  "SetName k x \<in> set (snd (resolveGlobal env g (m, []))) \<Longrightarrow>
     k = g \<and> x = g @ originalSuffix \<and> startsWith iselPrefix g"
  by (auto simp: resolveGlobal_def split: option.splits if_splits)

lemma resolveLoop_setName_sound:
  "SetName k x \<in> set (snd (resolveLoop env gs (m, []))) \<Longrightarrow>
     k \<in> set gs \<and> x = k @ originalSuffix \<and> startsWith iselPrefix k"
proof (induction gs arbitrary: m)
  case Nil
  then show ?case by simp
next
  case (Cons g gs)
  obtain m1 t1 where s1: "resolveGlobal env g (m, []) = (m1, t1)" by (cases "resolveGlobal env g (m, [])")
  from Cons.prems have "SetName k x \<in> set (snd (resolveLoop env gs (m1, t1)))" by (simp add: s1)
  then have "SetName k x \<in> set t1 \<or> SetName k x \<in> set (snd (resolveLoop env gs (m1, [])))"
    using resolveLoop_trace [of env gs m1 t1] by auto
  then show ?case
    using Cons.IH [of m1] resolveGlobal_setName_sound [of k x env g m] s1 by auto
qed

section \<open>The rename loop without name clashes\<close>

lemma resolveGlobal_free_step:
  assumes d: "distinct (symbolNames m)"
    and free: "startsWith iselPrefix g \<longrightarrow> g @ originalSuffix \<notin> set (symbolNames m)"
  shows "distinct (symbolNames (fst (resolveGlobal env g (m, tr))))"
    and "set (symbolNames (fst (resolveGlobal env g (m, tr)))) \<subseteq> insert (g @ originalSuffix) (set (symbolNames m))"
    and "k \<noteq> g \<Longrightarrow> (startsWith iselPrefix g \<longrightarrow> k \<noteq> g @ originalSuffix) \<Longrightarrow>
           getNamedValue (fst (resolveGlobal env g (m, tr))) k = getNamedValue m k"
    and "startsWith iselPrefix g \<Longrightarrow> getGlobalVariable m g = Some e \<Longrightarrow>
           getNamedValue (fst (resolveGlobal env g (m, tr))) (g @ originalSuffix) = Some e
           \<and> getNamedValue (fst (resolveGlobal env g (m, tr))) g = None"
proof -
  have ne: "g @ originalSuffix \<noteq> g" by (simp add: originalSuffix_def)
  have step: "fst (resolveGlobal env g (m, tr)) = m
      \<or> (startsWith iselPrefix g \<and> (\<exists>e. getGlobalVariable m g = Some e)
         \<and> symbols (fst (resolveGlobal env g (m, tr))) = renameEntry g (g @ originalSuffix) (symbols m))"
    using free ne by (auto simp: resolveGlobal_def setName_def Let_def split: option.splits)
  show "distinct (symbolNames (fst (resolveGlobal env g (m, tr))))"
    using step d free distinct_renameEntry [of "symbols m" "g @ originalSuffix" g]
    by (auto simp: symbolNames_def)
  show "set (symbolNames (fst (resolveGlobal env g (m, tr)))) \<subseteq> insert (g @ originalSuffix) (set (symbolNames m))"
  proof -
    from step show ?thesis
    proof
      assume "fst (resolveGlobal env g (m, tr)) = m"
      then show ?thesis by auto
    next
      assume "startsWith iselPrefix g \<and> (\<exists>e. getGlobalVariable m g = Some e)
         \<and> symbols (fst (resolveGlobal env g (m, tr))) = renameEntry g (g @ originalSuffix) (symbols m)"
      then have "symbolNames (fst (resolveGlobal env g (m, tr)))
          = map fst (renameEntry g (g @ originalSuffix) (symbols m))"
        by (simp add: symbolNames_def)
      then show ?thesis
        using names_renameEntry [of g "g @ originalSuffix" "symbols m"]
        by (simp add: symbolNames_def)
    qed
  qed
  show "getNamedValue (fst (resolveGlobal env g (m, tr))) k = getNamedValue m k"
    if "k \<noteq> g" "startsWith iselPrefix g \<longrightarrow> k \<noteq> g @ originalSuffix"
    using step that map_of_renameEntry_other [of k g "g @ originalSuffix" "symbols m"]
    by (auto simp: getNamedValue_def)
  show "getNamedValue (fst (resolveGlobal env g (m, tr))) (g @ originalSuffix) = Some e
      \<and> getNamedValue (fst (resolveGlobal env g (m, tr))) g = None"
    if sel: "startsWith iselPrefix g" and gv: "getGlobalVariable m g = Some e"
  proof -
    have sym: "symbols (fst (resolveGlobal env g (m, tr))) = renameEntry g (g @ originalSuffix) (symbols m)"
      using sel gv free ne by (simp add: resolveGlobal_def setName_def Let_def)
    have look: "map_of (symbols m) g = Some e"
      using gv by (auto simp: getGlobalVariable_def getNamedValue_def split: option.splits if_splits)
    show ?thesis
      using sym look d free sel ne
        map_of_renameEntry_new [of "symbols m" "g @ originalSuffix" g e]
        map_of_renameEntry_old [of "symbols m" "g @ originalSuffix" g]
      by (simp add: getNamedValue_def symbolNames_def)
  qed
qed

lemma originalNamesFree_step:
  assumes "originalNamesFree (g # gs) m" and "distinct (g # gs)" and "distinct (symbolNames m)"
  shows "originalNamesFree gs (fst (resolveGlobal env g (m, tr)))"
  unfolding originalNamesFree_def
proof (intro ballI impI)
  fix K assume K: "K \<in> set gs" and sel: "startsWith iselPrefix K"
  have free: "startsWith iselPrefix g \<longrightarrow> g @ originalSuffix \<notin> set (symbolNames m)"
    using assms(1) by (simp add: originalNamesFree_def)
  have "K \<noteq> g" using K assms(2) by auto
  then have "K @ originalSuffix \<noteq> g @ originalSuffix" by simp
  moreover have "K @ originalSuffix \<notin> set (symbolNames m)"
    using assms(1) K sel by (simp add: originalNamesFree_def)
  ultimately show "K @ originalSuffix \<notin> set (symbolNames (fst (resolveGlobal env g (m, tr))))"
    using resolveGlobal_free_step(2) [OF assms(3) free, of env tr] by auto
qed

lemma resolveLoop_keeps_renamed:
  assumes "distinct (symbolNames m)" and "distinct gs" and "originalNamesFree gs m"
    and "N \<notin> set gs" and "N @ originalSuffix \<notin> set gs"
    and "\<forall>K \<in> set gs. startsWith iselPrefix K \<longrightarrow> K @ originalSuffix \<noteq> N"
    and "getNamedValue m (N @ originalSuffix) = Some e" and "getNamedValue m N = None"
  shows "getNamedValue (fst (resolveLoop env gs (m, tr))) (N @ originalSuffix) = Some e
       \<and> getNamedValue (fst (resolveLoop env gs (m, tr))) N = None"
  using assms
proof (induction gs arbitrary: m tr)
  case Nil
  then show ?case by simp
next
  case (Cons g gs)
  obtain m1 t1 where s1: "resolveGlobal env g (m, tr) = (m1, t1)" by (cases "resolveGlobal env g (m, tr)")
  have m1: "m1 = fst (resolveGlobal env g (m, tr))" by (simp add: s1)
  have free: "startsWith iselPrefix g \<longrightarrow> g @ originalSuffix \<notin> set (symbolNames m)"
    using Cons.prems(3) by (simp add: originalNamesFree_def)
  have neq: "N \<noteq> g" "N @ originalSuffix \<noteq> g"
      "startsWith iselPrefix g \<longrightarrow> N \<noteq> g @ originalSuffix"
      "startsWith iselPrefix g \<longrightarrow> N @ originalSuffix \<noteq> g @ originalSuffix"
    using Cons.prems(4,5,6) by auto
  have "distinct (symbolNames m1)"
    unfolding m1 by (rule resolveGlobal_free_step(1) [OF Cons.prems(1) free])
  moreover have "originalNamesFree gs m1"
    unfolding m1 by (rule originalNamesFree_step [OF Cons.prems(3) Cons.prems(2) Cons.prems(1)])
  moreover have "getNamedValue m1 (N @ originalSuffix) = Some e"
    unfolding m1 using resolveGlobal_free_step(3) [OF Cons.prems(1) free neq(2) neq(4), of env tr] Cons.prems(7) by simp
  moreover have "getNamedValue m1 N = None"
    unfolding m1 using resolveGlobal_free_step(3) [OF Cons.prems(1) free neq(1) neq(3), of env tr] Cons.prems(8) by simp
  ultimately show ?case
    using Cons.IH [of m1 t1] Cons.prems(2,4,5,6) by (simp add: s1)
qed

lemma resolveLoop_renames:
  assumes "distinct (symbolNames m)" and "distinct gs" and "originalNamesFree gs m"
    and "N \<in> set gs" and "N @ originalSuffix \<notin> set gs"
    and "\<forall>K \<in> set gs. startsWith iselPrefix K \<longrightarrow> K @ originalSuffix \<noteq> N"
    and "startsWith iselPrefix N" and "getGlobalVariable m N = Some e"
  shows "getNamedValue (fst (resolveLoop env gs (m, tr))) (N @ originalSuffix) = Some e
       \<and> getNamedValue (fst (resolveLoop env gs (m, tr))) N = None"
  using assms
proof (induction gs arbitrary: m tr)
  case Nil
  then show ?case by simp
next
  case (Cons g gs)
  obtain m1 t1 where s1: "resolveGlobal env g (m, tr) = (m1, t1)" by (cases "resolveGlobal env g (m, tr)")
  have m1: "m1 = fst (resolveGlobal env g (m, tr))" by (simp add: s1)
  have free: "startsWith iselPrefix g \<longrightarrow> g @ originalSuffix \<notin> set (symbolNames m)"
    using Cons.prems(3) by (simp add: originalNamesFree_def)
  have d1: "distinct (symbolNames m1)"
    unfolding m1 by (rule resolveGlobal_free_step(1) [OF Cons.prems(1) free])
  have f1: "originalNamesFree gs m1"
    unfolding m1 by (rule originalNamesFree_step [OF Cons.prems(3) Cons.prems(2) Cons.prems(1)])
  show ?case
  proof (cases "g = N")
    case True
    have "getNamedValue m1 (N @ originalSuffix) = Some e \<and> getNamedValue m1 N = None"
      unfolding m1 using resolveGlobal_free_step(4) [OF Cons.prems(1) free, of e env tr] True Cons.prems(7,8) by simp
    moreover have "N \<notin> set gs" using True Cons.prems(2) by simp
    ultimately show ?thesis
      using resolveLoop_keeps_renamed [OF d1 _ f1, of N e env t1] Cons.prems(2,5,6) by (simp add: s1)
  next
    case False
    have neq: "N \<noteq> g" "startsWith iselPrefix g \<longrightarrow> N \<noteq> g @ originalSuffix"
      using False Cons.prems(6) by auto
    have "getNamedValue m1 N = getNamedValue m N"
      unfolding m1 by (rule resolveGlobal_free_step(3) [OF Cons.prems(1) free neq])
    then have "getGlobalVariable m1 N = Some e"
      using Cons.prems(8) by (simp add: getGlobalVariable_def)
    then show ?thesis
      using Cons.IH [OF d1 _ f1, of tr] Cons.IH [OF d1 _ f1, of t1] False Cons.prems(2,4,5,6,7) by (simp add: s1)
  qed
qed

lemma distinct_globals: "uniqueNames m \<Longrightarrow> distinct (map fst (globals m))"
  by (simp add: uniqueNames_def symbolNames_def globals_def distinct_map_filter)

lemma globals_subset: "set (map fst (globals m)) \<subseteq> set (symbolNames m)"
  by (auto simp: globals_def symbolNames_def)

lemma linkModules_lookup:
  "linkModules env dst src = (False, r) \<Longrightarrow>
     getNamedValue r k = (case getNamedValue src k of Some s \<Rightarrow> Some s | None \<Rightarrow> getNamedValue dst k)"
  by (auto simp: linkModules_def getNamedValue_def merge_conv' map_add_def split: if_splits option.splits)

lemma conformTarget_symbols:
  "conformTarget (base, patch) = (base, p1) \<Longrightarrow> symbols p1 = symbols patch \<and> globals p1 = globals patch
     \<and> symbolNames p1 = symbolNames patch \<and> getNamedValue p1 = getNamedValue patch"
  by (auto simp: conformTarget_def globals_def symbolNames_def getNamedValue_def fun_eq_iff)

text \<open>The call once the patch file has been found and parsed.\<close>

lemma hotpatchRemill_parsed:
  assumes "fs_exists env path = Some True" and "parseIRFile env path = Inr patch"
  shows "hotpatchRemill env base path =
     (let p1 = snd (conformTarget (base, patch));
          tr1 = [FsExists path, ParseIRFile path, SetDataLayout (dataLayout base), SetTargetTriple (targetTriple base)];
          r = resolveCollisions env p1 (base, tr1);
          l = linkModules env (fst r) p1
      in if fst l then (Returned False, snd l, snd r @ [LinkModules, Errs ''Failed to link hotpatch module\<newline>''])
         else (Returned True, snd l, snd r @ [LinkModules]))"
  using assms by (simp add: hotpatchRemill_def conformTarget_def Let_def split: prod.splits)

lemma resolveCollisions_renames:
  assumes ub: "uniqueNames base" and up: "uniqueNames patch"
    and free: "originalNamesFree (map fst (globals patch)) base"
    and inp: "(N, p) \<in> set (globals patch)" and sel: "startsWith iselPrefix N"
    and inb: "getGlobalVariable base N = Some b"
    and nosuf: "N @ originalSuffix \<notin> set (map fst (globals patch))"
  shows "getNamedValue (fst (resolveCollisions env patch (base, tr))) (N @ originalSuffix) = Some b
       \<and> getNamedValue (fst (resolveCollisions env patch (base, tr))) N = None"
proof -
  have Nin: "N \<in> set (symbolNames base)"
    using inb by (auto simp: getGlobalVariable_def getNamedValue_def symbolNames_def
        split: option.splits dest: map_of_SomeD intro: rev_image_eqI)
  have neq: "\<forall>K \<in> set (map fst (globals patch)). startsWith iselPrefix K \<longrightarrow> K @ originalSuffix \<noteq> N"
    using free Nin by (auto simp: originalNamesFree_def)
  have Ng: "N \<in> set (map fst (globals patch))" using inp by force
  show ?thesis
    unfolding resolveCollisions_def
    by (rule resolveLoop_renames [OF ub [unfolded uniqueNames_def] distinct_globals [OF up]
          free Ng nosuf neq sel inb])
qed


lemma resolveLoop_identity:
  "\<forall>K \<in> set gs. startsWith iselPrefix K \<longrightarrow> getNamedValue base K = None \<Longrightarrow>
     resolveLoop env gs (base, tr) = (base, tr)"
  by (induction gs) (auto simp: resolveGlobal_def getGlobalVariable_def)

lemma resolveGlobal_absent_noop:
  "getNamedValue m N = None \<Longrightarrow> resolveGlobal env N (m, tr) = (m, tr)"
  by (simp add: resolveGlobal_def getGlobalVariable_def)

lemma originalNamesFree_tail: "originalNamesFree (g # gs) m \<Longrightarrow> originalNamesFree gs m"
  by (simp add: originalNamesFree_def)

lemma resolveLoop_absent_stays:
  assumes "distinct (symbolNames m)" and "distinct gs" and "originalNamesFree gs m"
    and "\<forall>K \<in> set gs. startsWith iselPrefix K \<longrightarrow> K @ originalSuffix \<noteq> N"
    and "getNamedValue m N = None"
  shows "(\<forall>x. SetName N x \<notin> set (snd (resolveLoop env gs (m, []))))
       \<and> getNamedValue (fst (resolveLoop env gs (m, []))) N = None"
  using assms
proof (induction gs arbitrary: m)
  case Nil
  then show ?case by simp
next
  case (Cons g gs)
  show ?case
  proof (cases "g = N")
    case True
    have "resolveGlobal env g (m, []) = (m, [])"
      using True Cons.prems(5) by (simp add: resolveGlobal_absent_noop)
    then show ?thesis
      using Cons.IH [OF Cons.prems(1) _ originalNamesFree_tail [OF Cons.prems(3)]] Cons.prems(2,4,5)
      by simp
  next
    case False
    obtain m1 t1 where s1: "resolveGlobal env g (m, []) = (m1, t1)" by (cases "resolveGlobal env g (m, [])")
    have m1: "m1 = fst (resolveGlobal env g (m, []))" by (simp add: s1)
    have free: "startsWith iselPrefix g \<longrightarrow> g @ originalSuffix \<notin> set (symbolNames m)"
      using Cons.prems(3) by (simp add: originalNamesFree_def)
    have neq: "N \<noteq> g" "startsWith iselPrefix g \<longrightarrow> N \<noteq> g @ originalSuffix"
      using False Cons.prems(4) by auto
    have d1: "distinct (symbolNames m1)"
      unfolding m1 by (rule resolveGlobal_free_step(1) [OF Cons.prems(1) free])
    have f1: "originalNamesFree gs m1"
      unfolding m1 by (rule originalNamesFree_step [OF Cons.prems(3) Cons.prems(2) Cons.prems(1)])
    have n1: "getNamedValue m1 N = None"
      unfolding m1 using resolveGlobal_free_step(3) [OF Cons.prems(1) free neq, of env "[]"] Cons.prems(5) by simp
    have t1: "\<forall>x. SetName N x \<notin> set t1"
      using resolveGlobal_setName_sound [of N _ env g m] s1 False by auto
    have ih: "(\<forall>x. SetName N x \<notin> set (snd (resolveLoop env gs (m1, []))))
       \<and> getNamedValue (fst (resolveLoop env gs (m1, []))) N = None"
      using Cons.IH [OF d1 _ f1 _ n1] Cons.prems(2,4) by simp
    have tr: "snd (resolveLoop env gs (m1, t1)) = t1 @ snd (resolveLoop env gs (m1, []))"
      by (rule resolveLoop_trace)
    have md: "fst (resolveLoop env gs (m1, t1)) = fst (resolveLoop env gs (m1, []))"
      by (rule resolveLoop_module)
    show ?thesis using ih t1 tr md by (simp add: s1)
  qed
qed

lemma resolveCollisions_steps:
  "\<exists>rs. snd (resolveCollisions env patch (base, tr)) = tr @ rs \<and> (\<forall>e \<in> set rs. stepOf e = 3)"
proof -
  have "snd (resolveCollisions env patch (base, tr)) = tr @ snd (resolveLoop env (map fst (globals patch)) (base, []))"
    unfolding resolveCollisions_def by (rule resolveLoop_trace)
  then show ?thesis using resolveLoop_steps by blast
qed

lemma sorted_steps_append:
  "\<forall>e \<in> set rs. stepOf e = 3 \<Longrightarrow> sorted (map stepOf rs)"
  by (induction rs) auto


lemma executablePath_cached:
  "executablePath_path st = Some p \<Longrightarrow> executablePath now st = (Some p, st)"
  by (simp add: executablePath_def)

lemma executableDir_cached:
  "executableDir_path st = Some d \<Longrightarrow> executableDir parent now st = (Some d, st)"
  by (simp add: executableDir_def)

lemma executablePath_sets_static:
  "fst (executablePath now st) = Some p \<Longrightarrow> executablePath_path (snd (executablePath now st)) = Some p"
  by (auto simp: executablePath_def split: option.splits)

lemma executableDir_sets_static:
  "fst (executableDir parent now st) = Some d \<Longrightarrow> executableDir_path (snd (executableDir parent now st)) = Some d"
  by (auto simp: executableDir_def executablePath_def split: option.splits)

lemma executableDir_keeps_path_static:
  "executablePath_path st = Some p \<Longrightarrow> executablePath_path (snd (executableDir parent now st)) = Some p"
  by (auto simp: executableDir_def executablePath_def split: option.splits)

lemma executablePath_keeps_dir_static:
  "executableDir_path (snd (executablePath now st)) = executableDir_path st"
  by (auto simp: executablePath_def split: option.splits)

lemma runCalls_path_cached:
  "executablePath_path st = Some p \<Longrightarrow> (ExecutablePath, r) \<in> set (runCalls parent calls st) \<Longrightarrow> r = Some p"
proof (induction parent calls st rule: runCalls.induct)
  case (1 parent st)
  then show ?case by simp
next
  case (2 parent now rest st)
  then show ?case by (auto simp: executablePath_cached)
next
  case (3 parent now rest st)
  then show ?case using executableDir_keeps_path_static [of st p parent now] by auto
qed

lemma runCalls_dir_cached:
  "executableDir_path st = Some d \<Longrightarrow> (ExecutableDir, r) \<in> set (runCalls parent calls st) \<Longrightarrow> r = Some d"
proof (induction parent calls st rule: runCalls.induct)
  case (1 parent st)
  then show ?case by simp
next
  case (2 parent now rest st)
  then show ?case using executablePath_keeps_dir_static [of now st] by auto
next
  case (3 parent now rest st)
  then show ?case by (auto simp: executableDir_cached)
qed

lemma runCalls_same_value:
  "(c, Some p) \<in> set (runCalls parent calls st) \<Longrightarrow> (c, Some q) \<in> set (runCalls parent calls st) \<Longrightarrow> p = q"
proof (induction parent calls st rule: runCalls.induct)
  case (1 parent st)
  then show ?case by simp
next
  case (2 parent now rest st)
  show ?case
  proof (cases "c = ExecutablePath \<and> (\<exists>v. fst (executablePath now st) = Some v)")
    case True
    then obtain v where v: "fst (executablePath now st) = Some v" by blast
    have "\<And>r. (ExecutablePath, r) \<in> set (runCalls parent rest (snd (executablePath now st))) \<Longrightarrow> r = Some v"
      using runCalls_path_cached [OF executablePath_sets_static [OF v]] by blast
    then show ?thesis using "2.prems" True v by auto
  next
    case False
    then show ?thesis using 2 by auto
  qed
next
  case (3 parent now rest st)
  show ?case
  proof (cases "c = ExecutableDir \<and> (\<exists>v. fst (executableDir parent now st) = Some v)")
    case True
    then obtain v where v: "fst (executableDir parent now st) = Some v" by blast
    have "\<And>r. (ExecutableDir, r) \<in> set (runCalls parent rest (snd (executableDir parent now st))) \<Longrightarrow> r = Some v"
      using runCalls_dir_cached [OF executableDir_sets_static [OF v]] by blast
    then show ?thesis using "3.prems" True v by auto
  next
    case False
    then show ?thesis using 3 by auto
  qed
qed

section \<open>Override precedence\<close>

text \<open>
  C1, as stated, fails: the claim lets \<open>N\<close> range over every selector name held as a
  global by both modules. Here the patch module defines \<^verbatim>\<open>ISEL_CPUID\<close> and also
  \<^verbatim>\<open>ISEL_CPUID_original\<close>. The loop first renames the base module's \<^verbatim>\<open>ISEL_CPUID\<close> to
  \<^verbatim>\<open>ISEL_CPUID_original\<close>, then finds that renamed symbol under the patch's second name
  and renames it again; after the link \<^verbatim>\<open>ISEL_CPUID_original\<close> resolves to the patch
  module's definition, not to the one the base module held under \<^verbatim>\<open>ISEL_CPUID\<close>.
\<close>

theorem hotpatch_original_name_counterexample:
  "fst (hotpatchRemill (exampleEnv (Inr twoSelectorPatch) False) cpuidBase ''patch.bc'') = Returned True
   \<and> startsWith iselPrefix ''ISEL_CPUID''
   \<and> ''ISEL_CPUID'' \<in> set (map fst (globals twoSelectorPatch))
   \<and> ''ISEL_CPUID'' \<in> set (map fst (globals cpuidBase))
   \<and> getNamedValue cpuidBase ''ISEL_CPUID'' = Some \<lparr>kind = GlobalVariable, body = ''@F_old''\<rparr>
   \<and> getNamedValue (fst (snd (hotpatchRemill (exampleEnv (Inr twoSelectorPatch) False) cpuidBase ''patch.bc'')))
        (''ISEL_CPUID'' @ originalSuffix) = Some \<lparr>kind = GlobalVariable, body = ''@F_other''\<rparr>
   \<and> getNamedValue (fst (snd (hotpatchRemill (exampleEnv (Inr twoSelectorPatch) False) cpuidBase ''patch.bc'')))
        (''ISEL_CPUID'' @ originalSuffix) \<noteq> getNamedValue cpuidBase ''ISEL_CPUID''"
  by (simp add: model_defs example_defs)

text \<open>
  The same happens when the base module already holds \<^verbatim>\<open>ISEL_CPUID_original\<close>, as it
  does after an earlier hotpatch: the second call cannot give that name to the symbol it
  renames, and the name keeps resolving to the first original.
\<close>

lemma hotpatch_twice_original_name:
  "fst (hotpatchRemill (exampleEnv (Inr cpuidPatch) False)
          (fst (snd (hotpatchRemill (exampleEnv (Inr cpuidPatch) False) cpuidBase ''patch.bc''))) ''patch.bc'')
     = Returned True
   \<and> getGlobalVariable (fst (snd (hotpatchRemill (exampleEnv (Inr cpuidPatch) False) cpuidBase ''patch.bc'')))
        ''ISEL_CPUID'' = Some \<lparr>kind = GlobalVariable, body = ''@F_new''\<rparr>
   \<and> getNamedValue (fst (snd (hotpatchRemill (exampleEnv (Inr cpuidPatch) False)
          (fst (snd (hotpatchRemill (exampleEnv (Inr cpuidPatch) False) cpuidBase ''patch.bc''))) ''patch.bc'')))
        (''ISEL_CPUID'' @ originalSuffix) = Some \<lparr>kind = GlobalVariable, body = ''@F_old''\<rparr>"
  by (simp add: model_defs example_defs)

text \<open>
  C1, amended. Let names be unique in the base and in the patch module, let \<open>N\<close> be a
  selector name that is a global variable in both, let the patch module hold no symbol
  named \<open>N @ originalSuffix\<close>, and let no selector global \<open>K\<close> of the patch module have
  \<open>K @ originalSuffix\<close> in use in the base module. Then after a hotpatch call that returns
  success, \<open>N\<close> resolves in the base module to the patch module's definition and
  \<open>N @ originalSuffix\<close> resolves to the definition the base module held under \<open>N\<close>
  before the call.
\<close>

theorem hotpatch_selector_precedence:
  assumes ex: "fs_exists env path = Some True" and parse: "parseIRFile env path = Inr patch"
    and ub: "uniqueNames base" and up: "uniqueNames patch"
    and inp: "(N, p) \<in> set (globals patch)" and sel: "startsWith iselPrefix N"
    and inb: "getGlobalVariable base N = Some b"
    and nosuf: "N @ originalSuffix \<notin> set (symbolNames patch)"
    and free: "originalNamesFree (map fst (globals patch)) base"
    and ok: "hotpatchRemill env base path = (Returned True, result, tr)"
  shows "getNamedValue result N = Some p \<and> getNamedValue result (N @ originalSuffix) = Some b"
proof -
  define p1 where "p1 = snd (conformTarget (base, patch))"
  have c: "conformTarget (base, patch) = (base, p1)" by (simp add: p1_def conformTarget_def)
  note cs = conformTarget_symbols [OF c]
  define tr1 where "tr1 = [FsExists path, ParseIRFile path, SetDataLayout (dataLayout base), SetTargetTriple (targetTriple base)]"
  define m2 where "m2 = fst (resolveCollisions env p1 (base, tr1))"
  have link: "linkModules env m2 p1 = (False, result)"
    using ok hotpatchRemill_parsed [OF ex parse, of base]
    by (cases "linkModules env m2 p1") (auto simp: Let_def p1_def tr1_def m2_def split: if_splits)
  have up1: "uniqueNames p1" using up cs by (simp add: uniqueNames_def)
  have free1: "originalNamesFree (map fst (globals p1)) base" using free cs by (simp add: originalNamesFree_def)
  have inp1: "(N, p) \<in> set (globals p1)" using inp cs by simp
  have nosuf1: "N @ originalSuffix \<notin> set (map fst (globals p1))"
    using nosuf cs globals_subset [of patch] by auto
  have ren: "getNamedValue m2 (N @ originalSuffix) = Some b"
    unfolding m2_def using resolveCollisions_renames [OF ub up1 free1 inp1 sel inb nosuf1] by simp
  have "(N, p) \<in> set (symbols patch)" using inp by (simp add: globals_def)
  then have pN: "getNamedValue p1 N = Some p"
    using up cs by (simp add: getNamedValue_def uniqueNames_def symbolNames_def)
  have pS: "getNamedValue p1 (N @ originalSuffix) = None"
    using nosuf cs by (simp add: getNamedValue_def symbolNames_def map_of_eq_None_iff)
  show ?thesis
    using linkModules_lookup [OF link, of N] linkModules_lookup [OF link, of "N @ originalSuffix"] pN pS ren
    by simp
qed

theorem hotpatch_selector_precedence_witness:
  "fs_exists (exampleEnv (Inr cpuidPatch) False) ''patch.bc'' = Some True
   \<and> uniqueNames cpuidBase \<and> uniqueNames cpuidPatch
   \<and> (''ISEL_CPUID'', \<lparr>kind = GlobalVariable, body = ''@F_new''\<rparr>) \<in> set (globals cpuidPatch)
   \<and> startsWith iselPrefix ''ISEL_CPUID''
   \<and> getGlobalVariable cpuidBase ''ISEL_CPUID'' = Some \<lparr>kind = GlobalVariable, body = ''@F_old''\<rparr>
   \<and> ''ISEL_CPUID'' @ originalSuffix \<notin> set (symbolNames cpuidPatch)
   \<and> originalNamesFree (map fst (globals cpuidPatch)) cpuidBase
   \<and> fst (hotpatchRemill (exampleEnv (Inr cpuidPatch) False) cpuidBase ''patch.bc'') = Returned True
   \<and> getNamedValue (fst (snd (hotpatchRemill (exampleEnv (Inr cpuidPatch) False) cpuidBase ''patch.bc'')))
        ''ISEL_CPUID'' = Some \<lparr>kind = GlobalVariable, body = ''@F_new''\<rparr>
   \<and> getNamedValue (fst (snd (hotpatchRemill (exampleEnv (Inr cpuidPatch) False) cpuidBase ''patch.bc'')))
        (''ISEL_CPUID'' @ originalSuffix) = Some \<lparr>kind = GlobalVariable, body = ''@F_old''\<rparr>"
proof -
  obtain result tr where r:
    "hotpatchRemill (exampleEnv (Inr cpuidPatch) False) cpuidBase ''patch.bc'' = (Returned True, result, tr)"
    by (simp add: model_defs example_defs)
  have h1: "fs_exists (exampleEnv (Inr cpuidPatch) False) ''patch.bc'' = Some True" by (simp add: exampleEnv_def fs_exists_def)
  have h2: "parseIRFile (exampleEnv (Inr cpuidPatch) False) ''patch.bc'' = Inr cpuidPatch"
    by (simp add: exampleEnv_def fs_exists_def)
  have h3: "uniqueNames cpuidBase" by (simp add: model_defs example_defs)
  have h4: "uniqueNames cpuidPatch" by (simp add: model_defs example_defs)
  have h5: "(''ISEL_CPUID'', \<lparr>kind = GlobalVariable, body = ''@F_new''\<rparr>) \<in> set (globals cpuidPatch)"
    by (simp add: model_defs example_defs)
  have h6: "startsWith iselPrefix ''ISEL_CPUID''" by (simp add: model_defs)
  have h7: "getGlobalVariable cpuidBase ''ISEL_CPUID'' = Some \<lparr>kind = GlobalVariable, body = ''@F_old''\<rparr>"
    by (simp add: model_defs example_defs)
  have h8: "''ISEL_CPUID'' @ originalSuffix \<notin> set (symbolNames cpuidPatch)"
    by (simp add: model_defs example_defs)
  have h9: "originalNamesFree (map fst (globals cpuidPatch)) cpuidBase"
    by (simp add: originalNamesFree_def model_defs example_defs)
  show ?thesis
    using hotpatch_selector_precedence [OF h1 h2 h3 h4 h5 h6 h7 h8 h9 r] h1 h3 h4 h5 h6 h7 h8 h9
    by (simp add: r)
qed

section \<open>Missing patch file\<close>

text \<open>
  C2, as stated, fails: the claim has the call report failure for every path that does
  not exist. Here nothing is at the path, but its name is too long for the status query,
  which fails; \<^verbatim>\<open>std::filesystem::exists\<close> throws, and the call ends by that exception
  instead of returning failure with the not-found line.
\<close>

theorem hotpatch_missing_file_counterexample:
  "\<not> fs_present (exampleEnv (Inr cpuidPatch) False) longPath
   \<and> fs_exists (exampleEnv (Inr cpuidPatch) False) longPath = None
   \<and> hotpatchRemill (exampleEnv (Inr cpuidPatch) False) cpuidBase longPath
        = (Threw, cpuidBase, [FsExists longPath])
   \<and> fst (hotpatchRemill (exampleEnv (Inr cpuidPatch) False) cpuidBase longPath) \<noteq> Returned False"
  by (simp add: hotpatchRemill_def fs_exists_def exampleEnv_def longPath_length longPath_neq)

text \<open>
  C2, amended. For every base module and every path that does not exist: when the
  status query answers, the call returns failure and the base module is the one passed
  in, the only events being the existence test and the error line (nothing is parsed, no
  metadata is copied, no symbol is renamed and no link is attempted); when the status
  query fails, the call ends by the exception of the existence test, equally with the
  base module as passed in and no other event.
\<close>

theorem hotpatch_missing_file:
  assumes "\<not> fs_present env hotpatchPath"
  shows "hotpatchRemill env module hotpatchPath =
           (if fs_status_error env hotpatchPath then (Threw, module, [FsExists hotpatchPath])
            else (Returned False, module,
                  [FsExists hotpatchPath,
                   Errs (''Hotpatch file not found: '' @ hotpatchPath @ ''\<newline>'')]))"
  using assms by (simp add: hotpatchRemill_def fs_exists_def)

theorem hotpatch_missing_file_witness:
  "\<not> fs_present (exampleEnv (Inr cpuidPatch) False) ''nowhere.bc''
   \<and> \<not> fs_status_error (exampleEnv (Inr cpuidPatch) False) ''nowhere.bc''
   \<and> hotpatchRemill (exampleEnv (Inr cpuidPatch) False) cpuidBase ''nowhere.bc'' =
       (Returned False, cpuidBase,
        [FsExists ''nowhere.bc'', Errs ''Hotpatch file not found: nowhere.bc\<newline>''])
   \<and> \<not> fs_present (exampleEnv (Inr cpuidPatch) False) longPath
   \<and> fs_status_error (exampleEnv (Inr cpuidPatch) False) longPath
   \<and> hotpatchRemill (exampleEnv (Inr cpuidPatch) False) cpuidBase longPath =
       (Threw, cpuidBase, [FsExists longPath])"
proof -
  have h1: "\<not> fs_present (exampleEnv (Inr cpuidPatch) False) ''nowhere.bc''"
    by (simp add: exampleEnv_def)
  have h2: "\<not> fs_status_error (exampleEnv (Inr cpuidPatch) False) ''nowhere.bc''"
    by (simp add: exampleEnv_def)
  have h3: "\<not> fs_present (exampleEnv (Inr cpuidPatch) False) longPath"
    by (simp add: exampleEnv_def longPath_length longPath_neq)
  have h4: "fs_status_error (exampleEnv (Inr cpuidPatch) False) longPath"
    by (simp add: exampleEnv_def longPath_length longPath_neq)
  show ?thesis
    using hotpatch_missing_file [OF h1, of cpuidBase] hotpatch_missing_file [OF h3, of cpuidBase]
      h1 h2 h3 h4
    by simp
qed

section \<open>The symbol collision resolver\<close>

text \<open>
  C3, as stated, fails: the claim has the resolver process every symbol of the patch
  module with the prefix, function definitions included. The loop runs over
  \<^verbatim>\<open>patchModule->globals()\<close>, the global variables only. Here the patch module holds a
  function named \<^verbatim>\<open>ISEL_CPUID\<close> and the base module a symbol of that name: the resolver
  renames nothing and prints nothing.
\<close>

theorem resolver_skips_function_counterexample:
  "(''ISEL_CPUID'', \<lparr>kind = FunctionDefinition, body = ''ret 2''\<rparr>) \<in> set (symbols functionPatch)
   \<and> startsWith iselPrefix ''ISEL_CPUID''
   \<and> getNamedValue cpuidBase ''ISEL_CPUID'' = Some \<lparr>kind = GlobalVariable, body = ''@F_old''\<rparr>
   \<and> resolveCollisions (exampleEnv (Inr functionPatch) False) functionPatch (cpuidBase, []) = (cpuidBase, [])"
  by (simp add: model_defs example_defs)

text \<open>
  C3, amended. The resolver processes every global variable of the patch module whose
  name \<open>N\<close> begins with the prefix: if the base module holds a global variable named
  \<open>N\<close>, the resolver calls \<^verbatim>\<open>setName\<close> on it with \<open>N @ originalSuffix\<close> and prints the
  notice for \<open>N\<close>. Every rename of the resolver is of this form, for a global variable of
  the patch module. When names are unique in both modules, no suffixed name of a patch
  selector is in use in the base module and the patch module has no global variable named
  \<open>N @ originalSuffix\<close>, the resolver leaves the base module's symbol under
  \<open>N @ originalSuffix\<close> and nothing under \<open>N\<close>.
\<close>

theorem resolveCollisions_visits_global_variables:
  assumes inp: "(N, p) \<in> set (globals patch)" and sel: "startsWith iselPrefix N"
    and inb: "getGlobalVariable base N = Some b"
  shows "SetName N (N @ originalSuffix) \<in> set (snd (resolveCollisions env patch (base, [])))
       \<and> Outs (''Hotpatching: '' @ N @ ''\<newline>'') \<in> set (snd (resolveCollisions env patch (base, [])))
       \<and> (\<forall>K x. SetName K x \<in> set (snd (resolveCollisions env patch (base, []))) \<longrightarrow>
             K \<in> set (map fst (globals patch)) \<and> startsWith iselPrefix K \<and> x = K @ originalSuffix)
       \<and> (uniqueNames base \<and> uniqueNames patch \<and> originalNamesFree (map fst (globals patch)) base
            \<and> N @ originalSuffix \<notin> set (map fst (globals patch)) \<longrightarrow>
             getNamedValue (fst (resolveCollisions env patch (base, []))) (N @ originalSuffix) = Some b
             \<and> getNamedValue (fst (resolveCollisions env patch (base, []))) N = None)"
proof -
  have Ng: "N \<in> set (map fst (globals patch))" using inp by force
  have a: "SetName N (N @ originalSuffix) \<in> set (snd (resolveCollisions env patch (base, [])))
       \<and> Outs (''Hotpatching: '' @ N @ ''\<newline>'') \<in> set (snd (resolveCollisions env patch (base, [])))"
    unfolding resolveCollisions_def by (rule resolveLoop_visits [OF Ng sel inb])
  have b: "\<forall>K x. SetName K x \<in> set (snd (resolveCollisions env patch (base, []))) \<longrightarrow>
             K \<in> set (map fst (globals patch)) \<and> startsWith iselPrefix K \<and> x = K @ originalSuffix"
    unfolding resolveCollisions_def using resolveLoop_setName_sound by blast
  have c: "uniqueNames base \<and> uniqueNames patch \<and> originalNamesFree (map fst (globals patch)) base
            \<and> N @ originalSuffix \<notin> set (map fst (globals patch)) \<longrightarrow>
             getNamedValue (fst (resolveCollisions env patch (base, []))) (N @ originalSuffix) = Some b
             \<and> getNamedValue (fst (resolveCollisions env patch (base, []))) N = None"
    using resolveCollisions_renames [OF _ _ _ inp sel inb] by blast
  from a b c show ?thesis by blast
qed

theorem resolveCollisions_visits_global_variables_witness:
  "(''ISEL_CPUID'', \<lparr>kind = GlobalVariable, body = ''@F_new''\<rparr>) \<in> set (globals cpuidPatch)
   \<and> startsWith iselPrefix ''ISEL_CPUID''
   \<and> getGlobalVariable cpuidBase ''ISEL_CPUID'' = Some \<lparr>kind = GlobalVariable, body = ''@F_old''\<rparr>
   \<and> uniqueNames cpuidBase \<and> uniqueNames cpuidPatch \<and> originalNamesFree (map fst (globals cpuidPatch)) cpuidBase
   \<and> ''ISEL_CPUID'' @ originalSuffix \<notin> set (map fst (globals cpuidPatch))
   \<and> SetName ''ISEL_CPUID'' (''ISEL_CPUID'' @ originalSuffix)
        \<in> set (snd (resolveCollisions (exampleEnv (Inr cpuidPatch) False) cpuidPatch (cpuidBase, [])))
   \<and> Outs (''Hotpatching: '' @ ''ISEL_CPUID'' @ ''\<newline>'')
        \<in> set (snd (resolveCollisions (exampleEnv (Inr cpuidPatch) False) cpuidPatch (cpuidBase, [])))
   \<and> getNamedValue (fst (resolveCollisions (exampleEnv (Inr cpuidPatch) False) cpuidPatch (cpuidBase, [])))
        (''ISEL_CPUID'' @ originalSuffix) = Some \<lparr>kind = GlobalVariable, body = ''@F_old''\<rparr>
   \<and> getNamedValue (fst (resolveCollisions (exampleEnv (Inr cpuidPatch) False) cpuidPatch (cpuidBase, [])))
        ''ISEL_CPUID'' = None"
proof -
  have h1: "(''ISEL_CPUID'', \<lparr>kind = GlobalVariable, body = ''@F_new''\<rparr>) \<in> set (globals cpuidPatch)"
    by (simp add: model_defs example_defs)
  have h2: "startsWith iselPrefix ''ISEL_CPUID''" by (simp add: model_defs)
  have h3: "getGlobalVariable cpuidBase ''ISEL_CPUID'' = Some \<lparr>kind = GlobalVariable, body = ''@F_old''\<rparr>"
    by (simp add: model_defs example_defs)
  have h4: "uniqueNames cpuidBase \<and> uniqueNames cpuidPatch \<and> originalNamesFree (map fst (globals cpuidPatch)) cpuidBase
      \<and> ''ISEL_CPUID'' @ originalSuffix \<notin> set (map fst (globals cpuidPatch))"
    by (simp add: originalNamesFree_def model_defs example_defs)
  show ?thesis
    using resolveCollisions_visits_global_variables [OF h1 h2 h3, of "exampleEnv (Inr cpuidPatch) False"] h1 h2 h3 h4
    by blast
qed

section \<open>Target conformance\<close>

text \<open>
  C4. After the conformance step the patch module's data layout and target triple are
  those of the base module, whatever the two modules held before, and the base module
  is the same as before the step.
\<close>

theorem conformTarget_forces_base_metadata:
  "dataLayout (snd (conformTarget (module, patchModule))) = dataLayout module
   \<and> targetTriple (snd (conformTarget (module, patchModule))) = targetTriple module
   \<and> fst (conformTarget (module, patchModule)) = module
   \<and> symbols (snd (conformTarget (module, patchModule))) = symbols patchModule"
  by (simp add: conformTarget_def)

section \<open>Symbols outside the naming convention\<close>



section \<open>Link failure\<close>

text \<open>
  C6. If the merge fails, the call returns failure, and the base module is exactly the
  module the rename loop produced: in particular, for a selector \<open>N\<close> that the loop renamed
  (under the conditions of the amended C1) the old definition is still under
  \<open>N @ originalSuffix\<close> and nothing is under \<open>N\<close>.
\<close>

theorem hotpatch_link_failure_keeps_renames:
  assumes ex: "fs_exists env path = Some True" and parse: "parseIRFile env path = Inr patch"
    and fails: "linkFails env (fst (resolveCollisions env patch (base, []))) (snd (conformTarget (base, patch)))"
  shows "fst (hotpatchRemill env base path) = Returned False
       \<and> fst (snd (hotpatchRemill env base path)) = fst (resolveCollisions env patch (base, []))
       \<and> (\<forall>N p b. uniqueNames base \<and> uniqueNames patch \<and> originalNamesFree (map fst (globals patch)) base
             \<and> (N, p) \<in> set (globals patch) \<and> startsWith iselPrefix N
             \<and> getGlobalVariable base N = Some b \<and> N @ originalSuffix \<notin> set (map fst (globals patch)) \<longrightarrow>
             getNamedValue (fst (snd (hotpatchRemill env base path))) (N @ originalSuffix) = Some b
             \<and> getNamedValue (fst (snd (hotpatchRemill env base path))) N = None)"
proof -
  define p1 where "p1 = snd (conformTarget (base, patch))"
  have c: "conformTarget (base, patch) = (base, p1)" by (simp add: p1_def conformTarget_def)
  note cs = conformTarget_symbols [OF c]
  define tr1 where "tr1 = [FsExists path, ParseIRFile path, SetDataLayout (dataLayout base), SetTargetTriple (targetTriple base)]"
  have same: "fst (resolveCollisions env p1 (base, tr1)) = fst (resolveCollisions env patch (base, []))"
    using cs resolveLoop_module [of env "map fst (globals patch)" base tr1]
    by (simp add: resolveCollisions_def)
  have l: "linkModules env (fst (resolveCollisions env p1 (base, tr1))) p1
        = (True, fst (resolveCollisions env patch (base, [])))"
    using fails same by (simp add: linkModules_def p1_def)
  have r: "fst (hotpatchRemill env base path) = Returned False
       \<and> fst (snd (hotpatchRemill env base path)) = fst (resolveCollisions env patch (base, []))"
    using hotpatchRemill_parsed [OF ex parse, of base] l
    by (simp add: Let_def p1_def tr1_def)
  show ?thesis
    using r resolveCollisions_renames [of base patch _ _ _ env "[]"] by auto
qed

theorem hotpatch_link_failure_keeps_renames_witness:
  "fs_exists (exampleEnv (Inr cpuidPatch) True) ''patch.bc'' = Some True
   \<and> linkFails (exampleEnv (Inr cpuidPatch) True)
        (fst (resolveCollisions (exampleEnv (Inr cpuidPatch) True) cpuidPatch (cpuidBase, [])))
        (snd (conformTarget (cpuidBase, cpuidPatch)))
   \<and> getGlobalVariable cpuidBase ''ISEL_CPUID'' = Some \<lparr>kind = GlobalVariable, body = ''@F_old''\<rparr>
   \<and> fst (hotpatchRemill (exampleEnv (Inr cpuidPatch) True) cpuidBase ''patch.bc'') = Returned False
   \<and> getNamedValue (fst (snd (hotpatchRemill (exampleEnv (Inr cpuidPatch) True) cpuidBase ''patch.bc'')))
        (''ISEL_CPUID'' @ originalSuffix) = Some \<lparr>kind = GlobalVariable, body = ''@F_old''\<rparr>
   \<and> getNamedValue (fst (snd (hotpatchRemill (exampleEnv (Inr cpuidPatch) True) cpuidBase ''patch.bc'')))
        ''ISEL_CPUID'' = None"
proof -
  have h1: "fs_exists (exampleEnv (Inr cpuidPatch) True) ''patch.bc'' = Some True" by (simp add: exampleEnv_def fs_exists_def)
  have h2: "parseIRFile (exampleEnv (Inr cpuidPatch) True) ''patch.bc'' = Inr cpuidPatch" by (simp add: exampleEnv_def fs_exists_def)
  have h3: "linkFails (exampleEnv (Inr cpuidPatch) True)
        (fst (resolveCollisions (exampleEnv (Inr cpuidPatch) True) cpuidPatch (cpuidBase, [])))
        (snd (conformTarget (cpuidBase, cpuidPatch)))" by (simp add: exampleEnv_def fs_exists_def)
  have h4: "uniqueNames cpuidBase \<and> uniqueNames cpuidPatch \<and> originalNamesFree (map fst (globals cpuidPatch)) cpuidBase
      \<and> (''ISEL_CPUID'', \<lparr>kind = GlobalVariable, body = ''@F_new''\<rparr>) \<in> set (globals cpuidPatch)
      \<and> startsWith iselPrefix ''ISEL_CPUID''
      \<and> getGlobalVariable cpuidBase ''ISEL_CPUID'' = Some \<lparr>kind = GlobalVariable, body = ''@F_old''\<rparr>
      \<and> ''ISEL_CPUID'' @ originalSuffix \<notin> set (map fst (globals cpuidPatch))"
    by (simp add: originalNamesFree_def model_defs example_defs)
  show ?thesis
    using hotpatch_link_failure_keeps_renames [OF h1 h2 h3] h1 h3 h4 by blast
qed

section \<open>Selectors new to the base module\<close>

text \<open>
  C7, as stated, fails. The patch module defines \<^verbatim>\<open>ISEL_CPUID\<close> and
  \<^verbatim>\<open>ISEL_CPUID_original\<close>; the base module holds no symbol named
  \<^verbatim>\<open>ISEL_CPUID_original\<close>. The loop renames the base module's \<^verbatim>\<open>ISEL_CPUID\<close> to that
  name, and when it reaches the patch's second selector it finds the renamed symbol,
  renames it again and prints the notice for \<^verbatim>\<open>ISEL_CPUID_original\<close>.
\<close>

theorem resolver_created_name_counterexample:
  "startsWith iselPrefix ''ISEL_CPUID_original''
   \<and> ''ISEL_CPUID_original'' \<in> set (map fst (globals twoSelectorPatch))
   \<and> getNamedValue cpuidBase ''ISEL_CPUID_original'' = None
   \<and> SetName ''ISEL_CPUID_original'' ''ISEL_CPUID_original_original''
        \<in> set (snd (resolveCollisions (exampleEnv (Inr twoSelectorPatch) False) twoSelectorPatch (cpuidBase, [])))
   \<and> Outs ''Hotpatching: ISEL_CPUID_original\<newline>''
        \<in> set (snd (resolveCollisions (exampleEnv (Inr twoSelectorPatch) False) twoSelectorPatch (cpuidBase, [])))
   \<and> getNamedValue (fst (resolveCollisions (exampleEnv (Inr twoSelectorPatch) False) twoSelectorPatch (cpuidBase, [])))
        ''ISEL_CPUID_original_original'' = Some \<lparr>kind = GlobalVariable, body = ''@F_old''\<rparr>"
  by (simp add: model_defs example_defs)

text \<open>
  C7, amended. When the base module, at the moment the resolver looks \<open>N\<close> up, holds no
  symbol named \<open>N\<close>, the loop body for \<open>N\<close> leaves the base module as it is and adds no
  event: nothing is renamed, nothing is printed and no error is raised. When the base
  module at the start holds no symbol named by any selector global of the patch module,
  the whole resolver leaves the base module and the events as they are. And when the base
  module at the start holds no symbol named \<open>N\<close>, names are unique in both modules, no
  rename of the loop meets a name clash and \<open>N\<close> is not \<open>K @ originalSuffix\<close> for a
  selector global \<open>K\<close> of the patch module, the whole resolver requests no rename of \<open>N\<close>
  and leaves nothing under \<open>N\<close>.
\<close>

theorem resolver_absent_name_no_rename:
  "(getNamedValue base N = None \<longrightarrow> resolveGlobal env N (base, tr) = (base, tr))
   \<and> ((\<forall>K \<in> set (map fst (globals patch)). startsWith iselPrefix K \<longrightarrow> getNamedValue base K = None)
        \<longrightarrow> resolveCollisions env patch (base, tr) = (base, tr))
   \<and> (getNamedValue base N = None \<and> uniqueNames base \<and> uniqueNames patch
        \<and> originalNamesFree (map fst (globals patch)) base
        \<and> (\<forall>K \<in> set (map fst (globals patch)). startsWith iselPrefix K \<longrightarrow> K @ originalSuffix \<noteq> N)
        \<longrightarrow> (\<forall>x. SetName N x \<notin> set (snd (resolveCollisions env patch (base, []))))
            \<and> getNamedValue (fst (resolveCollisions env patch (base, []))) N = None)"
proof -
  have a: "getNamedValue base N = None \<longrightarrow> resolveGlobal env N (base, tr) = (base, tr)"
    by (simp add: resolveGlobal_absent_noop)
  have b: "(\<forall>K \<in> set (map fst (globals patch)). startsWith iselPrefix K \<longrightarrow> getNamedValue base K = None)
        \<longrightarrow> resolveCollisions env patch (base, tr) = (base, tr)"
    using resolveLoop_identity [of "map fst (globals patch)" base env tr]
    by (simp add: resolveCollisions_def)
  have c: "getNamedValue base N = None \<and> uniqueNames base \<and> uniqueNames patch
        \<and> originalNamesFree (map fst (globals patch)) base
        \<and> (\<forall>K \<in> set (map fst (globals patch)). startsWith iselPrefix K \<longrightarrow> K @ originalSuffix \<noteq> N)
        \<longrightarrow> (\<forall>x. SetName N x \<notin> set (snd (resolveCollisions env patch (base, []))))
            \<and> getNamedValue (fst (resolveCollisions env patch (base, []))) N = None"
    using resolveLoop_absent_stays [of base "map fst (globals patch)" N env] distinct_globals [of patch]
    by (auto simp: resolveCollisions_def uniqueNames_def)
  from a b c show ?thesis by blast
qed

theorem resolver_absent_name_no_rename_witness:
  "startsWith iselPrefix ''ISEL_RDTSC''
   \<and> getNamedValue cpuidBase ''ISEL_RDTSC'' = None
   \<and> uniqueNames cpuidBase \<and> uniqueNames newSelectorPatch
   \<and> originalNamesFree (map fst (globals newSelectorPatch)) cpuidBase
   \<and> resolveGlobal (exampleEnv (Inr newSelectorPatch) False) ''ISEL_RDTSC'' (cpuidBase, []) = (cpuidBase, [])
   \<and> resolveCollisions (exampleEnv (Inr newSelectorPatch) False) newSelectorPatch (cpuidBase, []) = (cpuidBase, [])
   \<and> (\<forall>x. SetName ''ISEL_RDTSC'' x
          \<notin> set (snd (resolveCollisions (exampleEnv (Inr newSelectorPatch) False) newSelectorPatch (cpuidBase, []))))
   \<and> getNamedValue (fst (resolveCollisions (exampleEnv (Inr newSelectorPatch) False) newSelectorPatch (cpuidBase, [])))
        ''ISEL_RDTSC'' = None"
proof -
  have h1: "getNamedValue cpuidBase ''ISEL_RDTSC'' = None" by (simp add: model_defs example_defs)
  have h2: "\<forall>K \<in> set (map fst (globals newSelectorPatch)). startsWith iselPrefix K \<longrightarrow> getNamedValue cpuidBase K = None"
    by (simp add: model_defs example_defs newSelectorPatch_def)
  have h3: "startsWith iselPrefix ''ISEL_RDTSC''" by (simp add: model_defs)
  have h4: "uniqueNames cpuidBase \<and> uniqueNames newSelectorPatch
      \<and> originalNamesFree (map fst (globals newSelectorPatch)) cpuidBase
      \<and> (\<forall>K \<in> set (map fst (globals newSelectorPatch)). startsWith iselPrefix K \<longrightarrow> K @ originalSuffix \<noteq> ''ISEL_RDTSC'')"
    by (simp add: originalNamesFree_def model_defs example_defs newSelectorPatch_def)
  show ?thesis
    using resolver_absent_name_no_rename [of cpuidBase "''ISEL_RDTSC''" "exampleEnv (Inr newSelectorPatch) False" "[]" newSelectorPatch]
      h1 h2 h3 h4 by blast
qed

section \<open>Order of the steps\<close>

text \<open>
  C8. The events of every call are ordered by step: loading, conformance, collision
  resolution, linking, and a failure report last. The call stops at the first failure:
  when the existence test throws, when it answers that nothing is there, and when parsing
  fails, the base module is the one passed in and nothing after the failing step
  happens; in the last two cases the call returns the flag false. When the file is found
  and parsed, the patch module first takes the base module's metadata, the resolver then
  runs on the base module with this patch module, and the linker is then given the
  resolver's base module and this patch module; the base module after the call is the
  linker's, and the flag is true exactly when the linker did not fail.
\<close>

theorem hotpatch_steps_in_order:
  "sorted (map stepOf (snd (snd (hotpatchRemill env module path))))
   \<and> (fs_exists env path = None \<longrightarrow>
        hotpatchRemill env module path = (Threw, module, [FsExists path]))
   \<and> (fs_exists env path = Some False \<longrightarrow>
        hotpatchRemill env module path =
          (Returned False, module,
           [FsExists path, Errs (''Hotpatch file not found: '' @ path @ ''\<newline>'')]))
   \<and> (fs_exists env path = Some True \<and> parseIRFile env path = Inl message \<longrightarrow>
        hotpatchRemill env module path =
          (Returned False, module,
           [FsExists path, ParseIRFile path,
            Errs (''Failed to parse hotpatch module: '' @ message @ ''\<newline>'')]))
   \<and> (fs_exists env path = Some True \<and> parseIRFile env path = Inr patch \<longrightarrow>
        (let conformed = snd (conformTarget (module, patch));
             tr1 = [FsExists path, ParseIRFile path,
                    SetDataLayout (dataLayout module), SetTargetTriple (targetTriple module)];
             resolved = resolveCollisions env conformed (module, tr1);
             failed = linkFails env (fst resolved) conformed
         in dataLayout conformed = dataLayout module
            \<and> targetTriple conformed = targetTriple module
            \<and> symbols conformed = symbols patch
            \<and> (\<exists>rs. snd resolved = tr1 @ rs \<and> (\<forall>e \<in> set rs. stepOf e = 3))
            \<and> hotpatchRemill env module path =
                (Returned (\<not> failed),
                 (if failed then fst resolved
                  else (fst resolved)\<lparr>symbols := AList.merge (symbols (fst resolved)) (symbols conformed)\<rparr>),
                 snd resolved @ LinkModules
                   # (if failed then [Errs ''Failed to link hotpatch module\<newline>''] else []))))"
proof -
  have srt: "sorted (map stepOf (snd (snd (hotpatchRemill env module path))))"
  proof (cases "fs_exists env path = Some True")
    case False
    then show ?thesis by (auto simp: hotpatchRemill_def split: option.splits)
  next
    case True
    show ?thesis
    proof (cases "parseIRFile env path")
      case (Inl msg)
      then show ?thesis using True by (simp add: hotpatchRemill_def)
    next
      case (Inr parsed)
      define p1 where "p1 = snd (conformTarget (module, parsed))"
      define tr1 where "tr1 = [FsExists path, ParseIRFile path, SetDataLayout (dataLayout module), SetTargetTriple (targetTriple module)]"
      obtain rs where rs: "snd (resolveCollisions env p1 (module, tr1)) = tr1 @ rs" "\<forall>e \<in> set rs. stepOf e = 3"
        using resolveCollisions_steps by blast
      define failed where "failed = fst (linkModules env (fst (resolveCollisions env p1 (module, tr1))) p1)"
      have run: "snd (snd (hotpatchRemill env module path)) =
          tr1 @ rs @ LinkModules # (if \<not> failed then [] else [Errs ''Failed to link hotpatch module\<newline>''])"
        using hotpatchRemill_parsed [OF True Inr, of module] rs(1)
        by (simp add: Let_def p1_def tr1_def failed_def)
      have "sorted (map stepOf (tr1 @ rs @ LinkModules # (if \<not> failed then [] else [Errs ''Failed to link hotpatch module\<newline>''])))"
        using rs(2) sorted_steps_append [OF rs(2)] by (auto simp: tr1_def sorted_append)
      then show ?thesis using run by simp
    qed
  qed
  have thrown: "fs_exists env path = None \<longrightarrow>
        hotpatchRemill env module path = (Threw, module, [FsExists path])"
    by (simp add: hotpatchRemill_def)
  have absent: "fs_exists env path = Some False \<longrightarrow>
        hotpatchRemill env module path =
          (Returned False, module,
           [FsExists path, Errs (''Hotpatch file not found: '' @ path @ ''\<newline>'')])"
    by (simp add: hotpatchRemill_def)
  have parse: "fs_exists env path = Some True \<and> parseIRFile env path = Inl message \<longrightarrow>
        hotpatchRemill env module path =
          (Returned False, module,
           [FsExists path, ParseIRFile path,
            Errs (''Failed to parse hotpatch module: '' @ message @ ''\<newline>'')])"
    by (simp add: hotpatchRemill_def)
  have flow: "fs_exists env path = Some True \<and> parseIRFile env path = Inr patch \<longrightarrow>
        (let conformed = snd (conformTarget (module, patch));
             tr1 = [FsExists path, ParseIRFile path,
                    SetDataLayout (dataLayout module), SetTargetTriple (targetTriple module)];
             resolved = resolveCollisions env conformed (module, tr1);
             failed = linkFails env (fst resolved) conformed
         in dataLayout conformed = dataLayout module
            \<and> targetTriple conformed = targetTriple module
            \<and> symbols conformed = symbols patch
            \<and> (\<exists>rs. snd resolved = tr1 @ rs \<and> (\<forall>e \<in> set rs. stepOf e = 3))
            \<and> hotpatchRemill env module path =
                (Returned (\<not> failed),
                 (if failed then fst resolved
                  else (fst resolved)\<lparr>symbols := AList.merge (symbols (fst resolved)) (symbols conformed)\<rparr>),
                 snd resolved @ LinkModules
                   # (if failed then [Errs ''Failed to link hotpatch module\<newline>''] else [])))"
  proof (intro impI)
    assume a: "fs_exists env path = Some True \<and> parseIRFile env path = Inr patch"
    then have ex: "fs_exists env path = Some True" and pr: "parseIRFile env path = Inr patch" by simp_all
    show "let conformed = snd (conformTarget (module, patch));
             tr1 = [FsExists path, ParseIRFile path,
                    SetDataLayout (dataLayout module), SetTargetTriple (targetTriple module)];
             resolved = resolveCollisions env conformed (module, tr1);
             failed = linkFails env (fst resolved) conformed
         in dataLayout conformed = dataLayout module
            \<and> targetTriple conformed = targetTriple module
            \<and> symbols conformed = symbols patch
            \<and> (\<exists>rs. snd resolved = tr1 @ rs \<and> (\<forall>e \<in> set rs. stepOf e = 3))
            \<and> hotpatchRemill env module path =
                (Returned (\<not> failed),
                 (if failed then fst resolved
                  else (fst resolved)\<lparr>symbols := AList.merge (symbols (fst resolved)) (symbols conformed)\<rparr>),
                 snd resolved @ LinkModules
                   # (if failed then [Errs ''Failed to link hotpatch module\<newline>''] else []))"
      unfolding Let_def
    proof (intro conjI)
      show "dataLayout (snd (conformTarget (module, patch))) = dataLayout module"
        by (simp add: conformTarget_def)
      show "targetTriple (snd (conformTarget (module, patch))) = targetTriple module"
        by (simp add: conformTarget_def)
      show "symbols (snd (conformTarget (module, patch))) = symbols patch"
        by (simp add: conformTarget_def)
      show "\<exists>rs. snd (resolveCollisions env (snd (conformTarget (module, patch)))
                 (module, [FsExists path, ParseIRFile path,
                    SetDataLayout (dataLayout module), SetTargetTriple (targetTriple module)])) =
               [FsExists path, ParseIRFile path,
                    SetDataLayout (dataLayout module), SetTargetTriple (targetTriple module)] @ rs
             \<and> (\<forall>e \<in> set rs. stepOf e = 3)"
        by (rule resolveCollisions_steps)
      show "hotpatchRemill env module path =
        (Returned (\<not> linkFails env (fst (resolveCollisions env (snd (conformTarget (module, patch)))
                 (module, [FsExists path, ParseIRFile path,
                    SetDataLayout (dataLayout module), SetTargetTriple (targetTriple module)])))
               (snd (conformTarget (module, patch)))),
         (if linkFails env (fst (resolveCollisions env (snd (conformTarget (module, patch)))
                 (module, [FsExists path, ParseIRFile path,
                    SetDataLayout (dataLayout module), SetTargetTriple (targetTriple module)])))
               (snd (conformTarget (module, patch)))
          then fst (resolveCollisions env (snd (conformTarget (module, patch)))
                 (module, [FsExists path, ParseIRFile path,
                    SetDataLayout (dataLayout module), SetTargetTriple (targetTriple module)]))
          else (fst (resolveCollisions env (snd (conformTarget (module, patch)))
                 (module, [FsExists path, ParseIRFile path,
                    SetDataLayout (dataLayout module), SetTargetTriple (targetTriple module)])))
                \<lparr>symbols := AList.merge
                   (symbols (fst (resolveCollisions env (snd (conformTarget (module, patch)))
                     (module, [FsExists path, ParseIRFile path,
                        SetDataLayout (dataLayout module), SetTargetTriple (targetTriple module)]))))
                   (symbols (snd (conformTarget (module, patch))))\<rparr>),
         snd (resolveCollisions env (snd (conformTarget (module, patch)))
                 (module, [FsExists path, ParseIRFile path,
                    SetDataLayout (dataLayout module), SetTargetTriple (targetTriple module)]))
           @ LinkModules
           # (if linkFails env (fst (resolveCollisions env (snd (conformTarget (module, patch)))
                 (module, [FsExists path, ParseIRFile path,
                    SetDataLayout (dataLayout module), SetTargetTriple (targetTriple module)])))
               (snd (conformTarget (module, patch)))
              then [Errs ''Failed to link hotpatch module\<newline>''] else []))"
        using hotpatchRemill_parsed [OF ex pr, of module]
        by (simp add: Let_def linkModules_def)
    qed
  qed
  from srt thrown absent parse flow show ?thesis by blast
qed

theorem hotpatch_steps_in_order_witness:
  "fs_exists (exampleEnv (Inr cpuidPatch) False) longPath = None
   \<and> hotpatchRemill (exampleEnv (Inr cpuidPatch) False) cpuidBase longPath
        = (Threw, cpuidBase, [FsExists longPath])
   \<and> fs_exists (exampleEnv (Inr cpuidPatch) False) ''nowhere.bc'' = Some False
   \<and> hotpatchRemill (exampleEnv (Inr cpuidPatch) False) cpuidBase ''nowhere.bc'' =
       (Returned False, cpuidBase,
        [FsExists ''nowhere.bc'', Errs ''Hotpatch file not found: nowhere.bc\<newline>''])
   \<and> fs_exists (exampleEnv (Inl ''expected top-level entity'') False) ''patch.bc'' = Some True
   \<and> hotpatchRemill (exampleEnv (Inl ''expected top-level entity'') False) cpuidBase ''patch.bc'' =
       (Returned False, cpuidBase,
        [FsExists ''patch.bc'', ParseIRFile ''patch.bc'',
         Errs ''Failed to parse hotpatch module: expected top-level entity\<newline>''])
   \<and> sorted (map stepOf (snd (snd (hotpatchRemill (exampleEnv (Inr cpuidPatch) False) cpuidBase ''patch.bc''))))
   \<and> hotpatchRemill (exampleEnv (Inr cpuidPatch) False) cpuidBase ''patch.bc'' =
       (Returned True,
        \<lparr>symbols = [(''ISEL_CPUID_original'', \<lparr>kind = GlobalVariable, body = ''@F_old''\<rparr>),
                    (''helper'', \<lparr>kind = FunctionDefinition, body = ''ret 1''\<rparr>),
                    (''ISEL_CPUID'', \<lparr>kind = GlobalVariable, body = ''@F_new''\<rparr>)],
         dataLayout = ''e-m:e-i64:64'', targetTriple = ''x86_64-pc-linux-gnu''\<rparr>,
        [FsExists ''patch.bc'', ParseIRFile ''patch.bc'',
         SetDataLayout ''e-m:e-i64:64'', SetTargetTriple ''x86_64-pc-linux-gnu'',
         SetName ''ISEL_CPUID'' ''ISEL_CPUID_original'',
         Outs ''Hotpatching: ISEL_CPUID\<newline>'', LinkModules])"
proof -
  have h0: "fs_exists (exampleEnv (Inr cpuidPatch) False) longPath = None"
    by (simp add: exampleEnv_def fs_exists_def longPath_length longPath_neq)
  have h1: "fs_exists (exampleEnv (Inr cpuidPatch) False) ''nowhere.bc'' = Some False"
    by (simp add: exampleEnv_def fs_exists_def)
  have h2: "fs_exists (exampleEnv (Inl ''expected top-level entity'') False) ''patch.bc'' = Some True
      \<and> parseIRFile (exampleEnv (Inl ''expected top-level entity'') False) ''patch.bc'' = Inl ''expected top-level entity''"
    by (simp add: exampleEnv_def fs_exists_def)
  have h3: "fs_exists (exampleEnv (Inr cpuidPatch) False) ''patch.bc'' = Some True
      \<and> parseIRFile (exampleEnv (Inr cpuidPatch) False) ''patch.bc'' = Inr cpuidPatch"
    by (simp add: exampleEnv_def fs_exists_def)
  have a: "hotpatchRemill (exampleEnv (Inr cpuidPatch) False) cpuidBase longPath
        = (Threw, cpuidBase, [FsExists longPath])"
    using hotpatch_steps_in_order [of "exampleEnv (Inr cpuidPatch) False" cpuidBase longPath "[]" cpuidPatch] h0
    by blast
  have b: "hotpatchRemill (exampleEnv (Inr cpuidPatch) False) cpuidBase ''nowhere.bc'' =
       (Returned False, cpuidBase,
        [FsExists ''nowhere.bc'', Errs ''Hotpatch file not found: nowhere.bc\<newline>''])"
    using hotpatch_steps_in_order [of "exampleEnv (Inr cpuidPatch) False" cpuidBase "''nowhere.bc''" "[]" cpuidPatch] h1
    by simp
  have c: "hotpatchRemill (exampleEnv (Inl ''expected top-level entity'') False) cpuidBase ''patch.bc'' =
       (Returned False, cpuidBase,
        [FsExists ''patch.bc'', ParseIRFile ''patch.bc'',
         Errs ''Failed to parse hotpatch module: expected top-level entity\<newline>''])"
    using hotpatch_steps_in_order [of "exampleEnv (Inl ''expected top-level entity'') False" cpuidBase
        "''patch.bc''" "''expected top-level entity''" cpuidPatch] h2
    by simp
  have d: "sorted (map stepOf (snd (snd (hotpatchRemill (exampleEnv (Inr cpuidPatch) False) cpuidBase ''patch.bc''))))"
    using hotpatch_steps_in_order [of "exampleEnv (Inr cpuidPatch) False" cpuidBase "''patch.bc''" "[]" cpuidPatch]
    by blast
  have e: "hotpatchRemill (exampleEnv (Inr cpuidPatch) False) cpuidBase ''patch.bc'' =
       (Returned True,
        \<lparr>symbols = [(''ISEL_CPUID_original'', \<lparr>kind = GlobalVariable, body = ''@F_old''\<rparr>),
                    (''helper'', \<lparr>kind = FunctionDefinition, body = ''ret 1''\<rparr>),
                    (''ISEL_CPUID'', \<lparr>kind = GlobalVariable, body = ''@F_new''\<rparr>)],
         dataLayout = ''e-m:e-i64:64'', targetTriple = ''x86_64-pc-linux-gnu''\<rparr>,
        [FsExists ''patch.bc'', ParseIRFile ''patch.bc'',
         SetDataLayout ''e-m:e-i64:64'', SetTargetTriple ''x86_64-pc-linux-gnu'',
         SetName ''ISEL_CPUID'' ''ISEL_CPUID_original'',
         Outs ''Hotpatching: ISEL_CPUID\<newline>'', LinkModules])"
    by (simp add: model_defs example_defs)
  from h0 h1 h2 a b c d e show ?thesis by simp
qed

section \<open>The caller's own existence test\<close>




section \<open>Cached executable path\<close>

text \<open>
  C10. In a run of calls, whatever the operating system answers at each call and
  whatever the statics hold at the start: any two calls of \<^verbatim>\<open>executablePath\<close> that return
  a value return the same one, and so do any two calls of \<^verbatim>\<open>executableDir\<close>, hence the
  default patch location built from it is the same; and once a call has returned a value,
  every later call of that function returns this value.
\<close>

theorem executable_paths_cached:
  "((c, Some p) \<in> set (runCalls parent calls st) \<and> (c, Some q) \<in> set (runCalls parent calls st)
      \<longrightarrow> p = q \<and> defaultHotpatchPath lib p = defaultHotpatchPath lib q)
   \<and> (fst (executablePath now st) = Some p \<longrightarrow>
        (\<forall>r. (ExecutablePath, r) \<in> set (runCalls parent calls (snd (executablePath now st))) \<longrightarrow> r = Some p))
   \<and> (fst (executableDir parent now st) = Some p \<longrightarrow>
        (\<forall>r. (ExecutableDir, r) \<in> set (runCalls parent calls (snd (executableDir parent now st))) \<longrightarrow> r = Some p))"
proof (intro conjI impI allI)
  assume "(c, Some p) \<in> set (runCalls parent calls st) \<and> (c, Some q) \<in> set (runCalls parent calls st)"
  then show "p = q" using runCalls_same_value by blast
  then show "defaultHotpatchPath lib p = defaultHotpatchPath lib q" by simp
next
  fix r
  assume "fst (executablePath now st) = Some p"
    and "(ExecutablePath, r) \<in> set (runCalls parent calls (snd (executablePath now st)))"
  then show "r = Some p"
    using runCalls_path_cached executablePath_sets_static by blast
next
  fix r
  assume "fst (executableDir parent now st) = Some p"
    and "(ExecutableDir, r) \<in> set (runCalls parent calls (snd (executableDir parent now st)))"
  then show "r = Some p"
    using runCalls_dir_cached executableDir_sets_static by blast
qed

theorem executable_paths_cached_witness:
  "runCalls (parent_path exampleLib) exampleCalls initialStatics =
     [(ExecutableDir, Some ''/opt/example''), (ExecutablePath, Some ''/opt/example/example''),
      (ExecutableDir, Some ''/opt/example''), (ExecutablePath, Some ''/opt/example/example'')]
   \<and> the (snd (runCalls (parent_path exampleLib) exampleCalls initialStatics ! 0))
       = the (snd (runCalls (parent_path exampleLib) exampleCalls initialStatics ! 2))
   \<and> defaultHotpatchPath exampleLib (the (snd (runCalls (parent_path exampleLib) exampleCalls initialStatics ! 0)))
       = defaultHotpatchPath exampleLib (the (snd (runCalls (parent_path exampleLib) exampleCalls initialStatics ! 2)))
   \<and> fst (executablePath (Some ''/opt/example/example'') initialStatics) = Some ''/opt/example/example''
   \<and> fst (executablePath (Some ''/tmp/moved/example'')
             (snd (executablePath (Some ''/opt/example/example'') initialStatics)))
       = Some ''/opt/example/example''
   \<and> fst (executableDir (parent_path exampleLib) (Some ''/opt/example/example'') initialStatics)
       = Some ''/opt/example''
   \<and> fst (executableDir (parent_path exampleLib) None
             (snd (executableDir (parent_path exampleLib) (Some ''/opt/example/example'') initialStatics)))
       = Some ''/opt/example''"
proof -
  define runs where "runs = runCalls (parent_path exampleLib) exampleCalls initialStatics"
  have run: "runs =
     [(ExecutableDir, Some ''/opt/example''), (ExecutablePath, Some ''/opt/example/example''),
      (ExecutableDir, Some ''/opt/example''), (ExecutablePath, Some ''/opt/example/example'')]"
    by (simp add: runs_def exampleCalls_def exampleLib_def initialStatics_def executableDir_def
        executablePath_def)
  have m0: "(ExecutableDir, Some (the (snd (runs ! 0)))) \<in> set runs" by (simp add: run)
  have m2: "(ExecutableDir, Some (the (snd (runs ! 2)))) \<in> set runs" by (simp add: run)
  have a: "the (snd (runs ! 0)) = the (snd (runs ! 2))
      \<and> defaultHotpatchPath exampleLib (the (snd (runs ! 0)))
          = defaultHotpatchPath exampleLib (the (snd (runs ! 2)))"
    using executable_paths_cached [of ExecutableDir "the (snd (runs ! 0))" "parent_path exampleLib"
        exampleCalls initialStatics "the (snd (runs ! 2))" exampleLib] m0 m2
    by (simp add: runs_def)
  have h2: "fst (executablePath (Some ''/opt/example/example'') initialStatics) = Some ''/opt/example/example''"
    by (simp add: executablePath_def initialStatics_def)
  have h3: "fst (executableDir (parent_path exampleLib) (Some ''/opt/example/example'') initialStatics)
      = Some ''/opt/example''"
    by (simp add: executableDir_def executablePath_def initialStatics_def exampleLib_def)
  have b: "fst (executablePath (Some ''/tmp/moved/example'')
             (snd (executablePath (Some ''/opt/example/example'') initialStatics)))
       = Some ''/opt/example/example''"
    using executable_paths_cached [of ExecutablePath "''/opt/example/example''" "parent_path exampleLib"
        "[(ExecutablePath, Some ''/tmp/moved/example'')]" initialStatics "[]" exampleLib
        "Some ''/opt/example/example''"] h2
    by simp
  have c: "fst (executableDir (parent_path exampleLib) None
             (snd (executableDir (parent_path exampleLib) (Some ''/opt/example/example'') initialStatics)))
       = Some ''/opt/example''"
    using executable_paths_cached [of ExecutableDir "''/opt/example''" "parent_path exampleLib"
        "[(ExecutableDir, None)]" initialStatics "[]" exampleLib
        "Some ''/opt/example/example''"] h3
    by simp
  from run a b c h2 h3 show ?thesis by (simp add: runs_def)
qed

end
